theory Spec2Isabelle
  imports Main "HOL-Library.Word"
begin

unbundle bit_operations_syntax

section \<open>The descriptor table of include/proto/fd.h\<close>

subsection \<open>State bits\<close>

text \<open>
  Modelled from the spec: the \<open>FD_EV_*\<close> constants live in types/fd.h, which is not
  among the source files. The spec's data model fixes them: the state is an 8-bit word, the
  low nibble is the read direction, the high nibble the write direction, and in each nibble
  bit 0 is POLLED, bit 1 is READY and bit 2 is ACTIVE.
\<close>

definition FD_EV_POLLED_R :: "8 word" where
  "FD_EV_POLLED_R = 0x01"

definition FD_EV_READY_R :: "8 word" where
  "FD_EV_READY_R = 0x02"

definition FD_EV_ACTIVE_R :: "8 word" where
  "FD_EV_ACTIVE_R = 0x04"

definition FD_EV_POLLED_W :: "8 word" where
  "FD_EV_POLLED_W = 0x10"

definition FD_EV_READY_W :: "8 word" where
  "FD_EV_READY_W = 0x20"

definition FD_EV_ACTIVE_W :: "8 word" where
  "FD_EV_ACTIVE_W = 0x40"

definition FD_EV_ACTIVE_RW :: "8 word" where
  "FD_EV_ACTIVE_RW = FD_EV_ACTIVE_R OR FD_EV_ACTIVE_W"

definition FD_EV_POLLED_RW :: "8 word" where
  "FD_EV_POLLED_RW = FD_EV_POLLED_R OR FD_EV_POLLED_W"

subsection \<open>The table and the per-thread variables\<close>

text \<open>
  One slot of \<open>fdtab[]\<close>, with the fields the header reads and writes. \<open>owner\<close> and
  \<open>iocb\<close> are pointers, kept as opaque handles. \<open>state\<close> is read into
  \<open>unsigned char\<close> locals, hence 8 bits. \<open>thread_mask\<close> and \<open>update_mask\<close> are
  \<open>unsigned long\<close> bitmaps with one bit per thread (64 bits, the LP64 width). The
  declared type of \<open>ev\<close> is in types/fd.h, outside the source files: it stays a type
  parameter, instantiated with an unsigned word by \<open>fd_update_events\<close>. The per-slot
  spinlock is left out: every function below runs to completion on its own.
\<close>

record 'v fdtab_entry =
  owner :: nat
  iocb :: nat
  state :: "8 word"
  ev :: 'v
  thread_mask :: "64 word"
  update_mask :: "64 word"
  linger_risk :: bool
  cloned :: bool

text \<open>
  The public variables. \<open>fdtab\<close> is indexed by the descriptor number. \<open>fd_updt\<close> and
  \<open>fd_nbupdt\<close> are \<open>THREAD_LOCAL\<close>: one array and one counter per thread, so both are
  indexed by the thread number first. The global ready cache \<open>fd_cache\<close> and the
  per-thread ones \<open>fd_cache_local[]\<close> are kept as the sequence of descriptors linked in
  each list; \<open>fd_cache_local\<close> is indexed by what the code computes as
  \<open>my_ffsl(thread_mask) - 1\<close>, an integer that only names an element of the C array when
  it is within \<open>0 .. MAX_THREADS - 1\<close>.
\<close>

record 'v fd_engine =
  fdtab :: "int \<Rightarrow> 'v fdtab_entry"
  fd_cache :: "int list"
  fd_cache_local :: "int \<Rightarrow> int list"
  fd_updt :: "nat \<Rightarrow> nat \<Rightarrow> int"
  fd_nbupdt :: "nat \<Rightarrow> nat"

subsection \<open>Helpers that are declared but not defined in the header\<close>

text \<open>
  Modelled from the spec: \<open>fd_add_to_fd_list\<close> and \<open>fd_rm_from_fd_list\<close> are only
  declared in the header (their bodies are in fd.c, not among the source files). The spec
  says that a descriptor is "ensured present in its ready list, else ensured absent", and the
  header's comments say that an entry is allocated "if it does not yet have one" and that
  release returns immediately "if the fd has no entry assigned". So adding links the
  descriptor at the tail unless it is already linked, and removing unlinks it.
\<close>

definition fd_add_to_fd_list :: "int list \<Rightarrow> int \<Rightarrow> int list" where
  "fd_add_to_fd_list l fd = (if fd \<in> set l then l else l @ [fd])"

definition fd_rm_from_fd_list :: "int list \<Rightarrow> int \<Rightarrow> int list" where
  "fd_rm_from_fd_list l fd = removeAll fd l"

text \<open>
  Modelled from the spec: \<open>my_ffsl\<close> comes from a header that is not among the source
  files. The routing rule of the spec sends a descriptor whose \<open>thread_mask\<close> has exactly one
  bit set to "that thread's local cache", so \<open>my_ffsl(mask) - 1\<close> is the number of the
  lowest set bit: \<open>my_ffsl\<close> is the 1-based position of the lowest set bit, as \<open>ffsl(3)\<close>,
  and 0 when no bit is set.
\<close>

definition my_ffsl :: "64 word \<Rightarrow> nat" where
  "my_ffsl a = (case List.find (bit a) [0..<64] of None \<Rightarrow> 0 | Some n \<Rightarrow> Suc n)"

subsection \<open>Update list and ready cache\<close>

text \<open>
  \<open>updt_fd_polling\<close>, run by thread \<open>tid\<close>. \<open>HA_ATOMIC_BTS\<close> sets bit \<open>tid\<close> of
  \<open>update_mask\<close> and returns its former value; when it was set the function returns.
  Otherwise \<open>fd_nbupdt\<close> is incremented and \<open>fd\<close> is stored at the former count.
\<close>

definition updt_fd_polling :: "nat \<Rightarrow> int \<Rightarrow> 'v fd_engine \<Rightarrow> 'v fd_engine" where
  "updt_fd_polling tid fd s =
     (if bit (update_mask (fdtab s fd)) tid then s
      else
        (let oldupdt = fd_nbupdt s tid in
         s\<lparr>fdtab := (fdtab s)(fd := (fdtab s fd)\<lparr>update_mask := set_bit tid (update_mask (fdtab s fd))\<rparr>),
           fd_nbupdt := (fd_nbupdt s)(tid := oldupdt + 1),
           fd_updt := (fd_updt s)(tid := (fd_updt s tid)(oldupdt := fd))\<rparr>))"

definition fd_alloc_cache_entry :: "int \<Rightarrow> 'v fd_engine \<Rightarrow> 'v fd_engine" where
  "fd_alloc_cache_entry fd s =
     (let tm = thread_mask (fdtab s fd) in
      if tm AND (tm - 1) = 0 then
        (let i = int (my_ffsl tm) - 1 in
         s\<lparr>fd_cache_local := (fd_cache_local s)(i := fd_add_to_fd_list (fd_cache_local s i) fd)\<rparr>)
      else s\<lparr>fd_cache := fd_add_to_fd_list (fd_cache s) fd\<rparr>)"

definition fd_release_cache_entry :: "int \<Rightarrow> 'v fd_engine \<Rightarrow> 'v fd_engine" where
  "fd_release_cache_entry fd s =
     (let tm = thread_mask (fdtab s fd) in
      if tm AND (tm - 1) = 0 then
        (let i = int (my_ffsl tm) - 1 in
         s\<lparr>fd_cache_local := (fd_cache_local s)(i := fd_rm_from_fd_list (fd_cache_local s i) fd)\<rparr>)
      else s\<lparr>fd_cache := fd_rm_from_fd_list (fd_cache s) fd\<rparr>)"

definition fd_update_cache :: "int \<Rightarrow> 'v fd_engine \<Rightarrow> 'v fd_engine" where
  "fd_update_cache fd s =
     (if state (fdtab s fd) AND (FD_EV_READY_R OR FD_EV_ACTIVE_R) = (FD_EV_READY_R OR FD_EV_ACTIVE_R)
         \<or> state (fdtab s fd) AND (FD_EV_READY_W OR FD_EV_ACTIVE_W) = (FD_EV_READY_W OR FD_EV_ACTIVE_W)
      then fd_alloc_cache_entry fd s
      else fd_release_cache_entry fd s)"

subsection \<open>State transition primitives\<close>

text \<open>
  Each primitive reads \<open>old\<close>, computes \<open>new\<close> and commits it with \<open>HA_ATOMIC_CAS\<close> in a
  retry loop. The \<open>HA_ATOMIC_*\<close> macros are defined outside the source files; they are
  read as the atomic operations they name (compare-and-swap, fetch-or, bit-test-and-set,
  add-and-fetch). The functions are modelled as run by one thread at a time: nothing writes
  the state between the read of \<open>old\<close> and the compare-and-swap, which therefore succeeds
  in the first iteration. \<open>fd_set_state\<close> is that successful store (and the store of
  \<open>HA_ATOMIC_OR\<close> in \<open>fd_may_recv\<close> and \<open>fd_may_send\<close>).
\<close>

definition fd_set_state :: "int \<Rightarrow> 8 word \<Rightarrow> 'v fd_engine \<Rightarrow> 'v fd_engine" where
  "fd_set_state fd v s = s\<lparr>fdtab := (fdtab s)(fd := (fdtab s fd)\<lparr>state := v\<rparr>)\<rparr>"

definition fd_stop_recv :: "nat \<Rightarrow> int \<Rightarrow> 'v fd_engine \<Rightarrow> 'v fd_engine" where
  "fd_stop_recv tid fd s =
     (let old = state (fdtab s fd) in
      if old AND FD_EV_ACTIVE_R = 0 then s
      else
        (let new = (old AND NOT FD_EV_ACTIVE_R) AND NOT FD_EV_POLLED_R;
             s1 = fd_set_state fd new s;
             s2 = (if (old XOR new) AND FD_EV_POLLED_R = 0 then s1 else updt_fd_polling tid fd s1)
         in fd_update_cache fd s2))"

definition fd_stop_send :: "nat \<Rightarrow> int \<Rightarrow> 'v fd_engine \<Rightarrow> 'v fd_engine" where
  "fd_stop_send tid fd s =
     (let old = state (fdtab s fd) in
      if old AND FD_EV_ACTIVE_W = 0 then s
      else
        (let new = (old AND NOT FD_EV_ACTIVE_W) AND NOT FD_EV_POLLED_W;
             s1 = fd_set_state fd new s;
             s2 = (if (old XOR new) AND FD_EV_POLLED_W = 0 then s1 else updt_fd_polling tid fd s1)
         in fd_update_cache fd s2))"

definition fd_stop_both :: "nat \<Rightarrow> int \<Rightarrow> 'v fd_engine \<Rightarrow> 'v fd_engine" where
  "fd_stop_both tid fd s =
     (let old = state (fdtab s fd) in
      if old AND FD_EV_ACTIVE_RW = 0 then s
      else
        (let new = (old AND NOT FD_EV_ACTIVE_RW) AND NOT FD_EV_POLLED_RW;
             s1 = fd_set_state fd new s;
             s2 = (if (old XOR new) AND FD_EV_POLLED_RW = 0 then s1 else updt_fd_polling tid fd s1)
         in fd_update_cache fd s2))"

definition fd_cant_recv :: "nat \<Rightarrow> int \<Rightarrow> 'v fd_engine \<Rightarrow> 'v fd_engine" where
  "fd_cant_recv tid fd s =
     (let old = state (fdtab s fd) in
      if old AND FD_EV_READY_R = 0 then s
      else
        (let new0 = old AND NOT FD_EV_READY_R;
             new = (if new0 AND FD_EV_ACTIVE_R = 0 then new0 else new0 OR FD_EV_POLLED_R);
             s1 = fd_set_state fd new s;
             s2 = (if (old XOR new) AND FD_EV_POLLED_R = 0 then s1 else updt_fd_polling tid fd s1)
         in fd_update_cache fd s2))"

definition fd_may_recv :: "int \<Rightarrow> 'v fd_engine \<Rightarrow> 'v fd_engine" where
  "fd_may_recv fd s =
     fd_update_cache fd (fd_set_state fd (state (fdtab s fd) OR FD_EV_READY_R) s)"

definition fd_done_recv :: "nat \<Rightarrow> int \<Rightarrow> 'v fd_engine \<Rightarrow> 'v fd_engine" where
  "fd_done_recv tid fd s =
     (let old = state (fdtab s fd) in
      if old AND (FD_EV_POLLED_R OR FD_EV_READY_R) = (FD_EV_POLLED_R OR FD_EV_READY_R) then
        (let new0 = old AND NOT FD_EV_READY_R;
             new = (if new0 AND FD_EV_ACTIVE_R = 0 then new0 else new0 OR FD_EV_POLLED_R);
             s1 = fd_set_state fd new s;
             s2 = (if (old XOR new) AND FD_EV_POLLED_R = 0 then s1 else updt_fd_polling tid fd s1)
         in fd_update_cache fd s2)
      else s)"

definition fd_cant_send :: "nat \<Rightarrow> int \<Rightarrow> 'v fd_engine \<Rightarrow> 'v fd_engine" where
  "fd_cant_send tid fd s =
     (let old = state (fdtab s fd) in
      if old AND FD_EV_READY_W = 0 then s
      else
        (let new0 = old AND NOT FD_EV_READY_W;
             new = (if new0 AND FD_EV_ACTIVE_W = 0 then new0 else new0 OR FD_EV_POLLED_W);
             s1 = fd_set_state fd new s;
             s2 = (if (old XOR new) AND FD_EV_POLLED_W = 0 then s1 else updt_fd_polling tid fd s1)
         in fd_update_cache fd s2))"

definition fd_may_send :: "int \<Rightarrow> 'v fd_engine \<Rightarrow> 'v fd_engine" where
  "fd_may_send fd s =
     fd_update_cache fd (fd_set_state fd (state (fdtab s fd) OR FD_EV_READY_W) s)"

definition fd_want_recv :: "nat \<Rightarrow> int \<Rightarrow> 'v fd_engine \<Rightarrow> 'v fd_engine" where
  "fd_want_recv tid fd s =
     (let old = state (fdtab s fd) in
      if old AND FD_EV_ACTIVE_R = 0 then
        (let new0 = old OR FD_EV_ACTIVE_R;
             new = (if new0 AND FD_EV_READY_R = 0 then new0 OR FD_EV_POLLED_R else new0);
             s1 = fd_set_state fd new s;
             s2 = (if (old XOR new) AND FD_EV_POLLED_R = 0 then s1 else updt_fd_polling tid fd s1)
         in fd_update_cache fd s2)
      else s)"

definition fd_want_send :: "nat \<Rightarrow> int \<Rightarrow> 'v fd_engine \<Rightarrow> 'v fd_engine" where
  "fd_want_send tid fd s =
     (let old = state (fdtab s fd) in
      if old AND FD_EV_ACTIVE_W = 0 then
        (let new0 = old OR FD_EV_ACTIVE_W;
             new = (if new0 AND FD_EV_READY_W = 0 then new0 OR FD_EV_POLLED_W else new0);
             s1 = fd_set_state fd new s;
             s2 = (if (old XOR new) AND FD_EV_POLLED_W = 0 then s1 else updt_fd_polling tid fd s1)
         in fd_update_cache fd s2)
      else s)"

subsection \<open>Kernel events and insertion\<close>

text \<open>
  The \<open>FD_POLL_*\<close> macros are defined in types/fd.h, outside the source files, and the
  spec gives no values for them: they are parameters, given at the width of the \<open>ev\<close>
  field (an unsigned field of some width \<open>'e\<close>).
\<close>

record 'v fd_poll_consts =
  FD_POLL_IN :: 'v
  FD_POLL_OUT :: 'v
  FD_POLL_ERR :: 'v
  FD_POLL_HUP :: 'v
  FD_POLL_STICKY :: 'v

text \<open>
  \<open>fd_update_events\<close>. \<open>evts\<close> is a C \<open>int\<close>; \<open>ev |= evts\<close> converts it to the type
  of the field, which is \<open>scast\<close> for every width. The two tests read \<open>fdtab[fd].ev\<close>
  again, after the stores and after \<open>fd_may_recv\<close>.
\<close>

definition fd_update_events ::
  "'e::len word fd_poll_consts \<Rightarrow> int \<Rightarrow> 32 word \<Rightarrow> 'e word fd_engine \<Rightarrow> 'e word fd_engine" where
  "fd_update_events c fd evts s =
     (let s1 = s\<lparr>fdtab := (fdtab s)(fd := (fdtab s fd)\<lparr>ev := ev (fdtab s fd) AND FD_POLL_STICKY c\<rparr>)\<rparr>;
          s2 = s1\<lparr>fdtab := (fdtab s1)(fd := (fdtab s1 fd)\<lparr>ev := ev (fdtab s1 fd) OR scast evts\<rparr>)\<rparr>;
          s3 = (if ev (fdtab s2 fd) AND (FD_POLL_IN c OR FD_POLL_HUP c OR FD_POLL_ERR c) = 0 then s2
                else fd_may_recv fd s2);
          s4 = (if ev (fdtab s3 fd) AND (FD_POLL_OUT c OR FD_POLL_ERR c) = 0 then s3
                else fd_may_send fd s3)
      in s4)"

text \<open>\<open>fd_insert\<close>, run by thread \<open>tid\<close>; \<open>tid_bit\<close> is \<open>1UL << tid\<close>.\<close>

definition fd_insert ::
  "nat \<Rightarrow> int \<Rightarrow> nat \<Rightarrow> nat \<Rightarrow> 64 word \<Rightarrow> 'v::zero fd_engine \<Rightarrow> 'v fd_engine" where
  "fd_insert tid fd own cb tmask s =
     s\<lparr>fdtab := (fdtab s)(fd := (fdtab s fd)
         \<lparr>owner := own,
          iocb := cb,
          ev := 0,
          update_mask := update_mask (fdtab s fd) AND NOT (push_bit tid 1),
          linger_risk := False,
          cloned := False,
          thread_mask := tmask\<rparr>)\<rparr>"

subsection \<open>Replacements for FD_SET, FD_CLR and FD_ISSET\<close>

text \<open>
  \<open>fd\<close> is a C \<open>int\<close> and the array holds \<open>unsigned int\<close>, so \<open>8*sizeof(*evts)\<close>
  is the \<open>size_t\<close> value 32: in \<open>fd / 32\<close> and \<open>fd & 31\<close> the descriptor is first
  converted to \<open>size_t\<close> (64 bits, by sign extension). The array is unbounded here; the
  caller sizes it in C.
\<close>

definition hap_fd_index :: "32 word \<Rightarrow> nat" where
  "hap_fd_index fd = unat ((scast fd :: 64 word) div 32)"

definition hap_fd_bit :: "32 word \<Rightarrow> 32 word" where
  "hap_fd_bit fd = push_bit (unat ((scast fd :: 64 word) AND 31)) 1"

definition hap_fd_set :: "32 word \<Rightarrow> (nat \<Rightarrow> 32 word) \<Rightarrow> (nat \<Rightarrow> 32 word)" where
  "hap_fd_set fd evts = evts(hap_fd_index fd := evts (hap_fd_index fd) OR hap_fd_bit fd)"

definition hap_fd_clr :: "32 word \<Rightarrow> (nat \<Rightarrow> 32 word) \<Rightarrow> (nat \<Rightarrow> 32 word)" where
  "hap_fd_clr fd evts = evts(hap_fd_index fd := evts (hap_fd_index fd) AND NOT (hap_fd_bit fd))"

definition hap_fd_isset :: "32 word \<Rightarrow> (nat \<Rightarrow> 32 word) \<Rightarrow> 32 word" where
  "hap_fd_isset fd evts = evts (hap_fd_index fd) AND hap_fd_bit fd"

subsection \<open>Sequences of primitive calls\<close>

text \<open>
  The transition primitives of the header, and a run of calls, each made by some thread on
  some descriptor. The all-zero engine is the zero-initialised static storage: every slot
  zero, both kinds of cache empty, every update list empty.
\<close>

datatype fd_prim =
    Want_recv | Want_send | Stop_recv | Stop_send | Stop_both
  | May_recv | May_send | Cant_recv | Cant_send | Done_recv

fun fd_prim_call :: "fd_prim \<Rightarrow> nat \<Rightarrow> int \<Rightarrow> 'v fd_engine \<Rightarrow> 'v fd_engine" where
  "fd_prim_call Want_recv tid fd s = fd_want_recv tid fd s"
| "fd_prim_call Want_send tid fd s = fd_want_send tid fd s"
| "fd_prim_call Stop_recv tid fd s = fd_stop_recv tid fd s"
| "fd_prim_call Stop_send tid fd s = fd_stop_send tid fd s"
| "fd_prim_call Stop_both tid fd s = fd_stop_both tid fd s"
| "fd_prim_call May_recv tid fd s = fd_may_recv fd s"
| "fd_prim_call May_send tid fd s = fd_may_send fd s"
| "fd_prim_call Cant_recv tid fd s = fd_cant_recv tid fd s"
| "fd_prim_call Cant_send tid fd s = fd_cant_send tid fd s"
| "fd_prim_call Done_recv tid fd s = fd_done_recv tid fd s"

fun fd_run :: "(fd_prim \<times> nat \<times> int) list \<Rightarrow> 'v fd_engine \<Rightarrow> 'v fd_engine" where
  "fd_run [] s = s"
| "fd_run ((p, tid, fd) # cs) s = fd_run cs (fd_prim_call p tid fd s)"

definition fd_engine_zero :: "'v::zero fd_engine" where
  "fd_engine_zero =
     \<lparr>fdtab = (\<lambda>fd. \<lparr>owner = 0, iocb = 0, state = 0, ev = 0, thread_mask = 0, update_mask = 0,
                      linger_risk = False, cloned = False\<rparr>),
      fd_cache = [],
      fd_cache_local = (\<lambda>i. []),
      fd_updt = (\<lambda>t k. 0),
      fd_nbupdt = (\<lambda>t. 0)\<rparr>"

text \<open>The update list of thread \<open>t\<close>: the first \<open>fd_nbupdt\<close> cells of its \<open>fd_updt\<close>.\<close>

definition updt_list :: "'v fd_engine \<Rightarrow> nat \<Rightarrow> int list" where
  "updt_list s t = map (fd_updt s t) [0..<fd_nbupdt s t]"

text \<open>Everything \<open>updt_fd_polling\<close> can change: the update masks, the lists, the counters.\<close>

definition updt_view :: "'v fd_engine \<Rightarrow> (int \<Rightarrow> 64 word) \<times> (nat \<Rightarrow> nat \<Rightarrow> int) \<times> (nat \<Rightarrow> nat)" where
  "updt_view s = ((\<lambda>fd. update_mask (fdtab s fd)), fd_updt s, fd_nbupdt s)"

text \<open>Membership of a descriptor in some ready cache, global or local.\<close>

definition fd_cached :: "'v fd_engine \<Rightarrow> int \<Rightarrow> bool" where
  "fd_cached s fd = (fd \<in> set (fd_cache s) \<or> (\<exists>i. fd \<in> set (fd_cache_local s i)))"

text \<open>One direction of a state word is both ACTIVE and READY.\<close>

definition fd_active_ready :: "8 word \<Rightarrow> bool" where
  "fd_active_ready v =
     (v AND FD_EV_ACTIVE_R = FD_EV_ACTIVE_R \<and> v AND FD_EV_READY_R = FD_EV_READY_R
      \<or> v AND FD_EV_ACTIVE_W = FD_EV_ACTIVE_W \<and> v AND FD_EV_READY_W = FD_EV_READY_W)"

text \<open>In each direction of a state word, POLLED is only set together with ACTIVE.\<close>

definition polled_active :: "8 word \<Rightarrow> bool" where
  "polled_active v =
     ((v AND FD_EV_POLLED_R = 0 \<or> v AND FD_EV_ACTIVE_R \<noteq> 0)
      \<and> (v AND FD_EV_POLLED_W = 0 \<or> v AND FD_EV_ACTIVE_W \<noteq> 0))"


text \<open>
  A descriptor is linked in no other ready cache than the one its \<open>thread_mask\<close> selects,
  and it is linked in some cache exactly when a direction of its state word is both ACTIVE
  and READY.
\<close>

definition home_ok :: "'v fd_engine \<Rightarrow> int \<Rightarrow> bool" where
  "home_ok s fd =
     ((fd \<in> set (fd_cache s) \<longrightarrow>
         thread_mask (fdtab s fd) AND (thread_mask (fdtab s fd) - 1) \<noteq> 0)
      \<and> (\<forall>i. fd \<in> set (fd_cache_local s i) \<longrightarrow>
           thread_mask (fdtab s fd) AND (thread_mask (fdtab s fd) - 1) = 0
           \<and> i = int (my_ffsl (thread_mask (fdtab s fd))) - 1))"

definition cache_inv :: "'v fd_engine \<Rightarrow> bool" where
  "cache_inv s =
     (\<forall>fd. home_ok s fd \<and> (fd_cached s fd \<longleftrightarrow> fd_active_ready (state (fdtab s fd))))"






section \<open>The UNIX stream listener of src/proto_uxst.c\<close>

text \<open>
  The listener states that the file names, and the fields of \<open>struct listener\<close> that the
  accept and release paths use. \<open>li_timeout_set\<close> is the test
  \<open>l->timeout && tv_isset(l->timeout)\<close>.
\<close>

datatype li_state = LI_INIT | LI_LISTEN | LI_READY | LI_FULL

record listener =
  li_fd :: int
  li_state :: li_state
  li_nbconn :: int
  li_maxconn :: int
  li_timeout_set :: bool

datatype fd_dir = DIR_RD | DIR_WR

text \<open>
  Modelled from the spec: the macros \<open>EV_FD_SET\<close> and \<open>EV_FD_CLR\<close> are not defined in
  the source files. The spec's listener example names them: "On LI_FULL the listener calls
  stop_recv(fd); on drain it calls want_recv(fd) again". So setting a direction is the
  \<open>want\<close> primitive and clearing it the \<open>stop\<close> primitive of the descriptor table.
\<close>

definition EV_FD_SET :: "nat \<Rightarrow> int \<Rightarrow> fd_dir \<Rightarrow> 'v fd_engine \<Rightarrow> 'v fd_engine" where
  "EV_FD_SET tid fd dir s = (case dir of DIR_RD \<Rightarrow> fd_want_recv tid fd s | DIR_WR \<Rightarrow> fd_want_send tid fd s)"

definition EV_FD_CLR :: "nat \<Rightarrow> int \<Rightarrow> fd_dir \<Rightarrow> 'v fd_engine \<Rightarrow> 'v fd_engine" where
  "EV_FD_CLR tid fd dir s = (case dir of DIR_RD \<Rightarrow> fd_stop_recv tid fd s | DIR_WR \<Rightarrow> fd_stop_send tid fd s)"

text \<open>
  What one iteration of the accept loop meets: the value of \<open>accept()\<close> (\<open>-1\<close> on any
  error) and whether each later allocation or system call succeeds.
\<close>

record accept_try =
  acc_cfd :: int
  acc_session_ok :: bool
  acc_task_ok :: bool
  acc_nonblock_ok :: bool
  acc_req_ok :: bool
  acc_rep_ok :: bool

text \<open>
  The state the accept and release paths share: the descriptor table, the listener that owns
  the listening descriptor, and the two connection counters.
\<close>

record 'v uxst_world =
  engine :: "'v fd_engine"
  lst :: listener
  actconn :: int
  totalconn :: int

datatype 'a loop_step = Return 'a | Continue 'a

text \<open>
  The body of the \<open>while (max_accept--)\<close> loop of \<open>uxst_event_accept\<close>. Every failure
  closes or frees what it took and returns 0. The session, the task, the buffers and the
  slot of the accepted descriptor (fields of an older \<open>fdtab\<close> layout) are not part of the
  state kept here.
\<close>

definition uxst_accept_one :: "nat \<Rightarrow> int \<Rightarrow> accept_try \<Rightarrow> 'v uxst_world \<Rightarrow> 'v uxst_world loop_step" where
  "uxst_accept_one tid maxsock a w =
     (if acc_cfd a = - 1 then Return w
      else if li_maxconn (lst w) \<le> li_nbconn (lst w) then Return w
      else if \<not> acc_session_ok a then Return w
      else if \<not> acc_task_ok a then Return w
      else if maxsock \<le> acc_cfd a then Return w
      else if \<not> acc_nonblock_ok a then Return w
      else if \<not> acc_req_ok a then Return w
      else if \<not> acc_rep_ok a then Return w
      else
        (let e1 = (if li_timeout_set (lst w) then EV_FD_SET tid (acc_cfd a) DIR_RD (engine w)
                   else engine w);
             l1 = (lst w)\<lparr>li_nbconn := li_nbconn (lst w) + 1\<rparr>;
             full = (li_maxconn l1 \<le> li_nbconn l1);
             e2 = (if full then EV_FD_CLR tid (li_fd l1) DIR_RD e1 else e1);
             l2 = (if full then l1\<lparr>li_state := LI_FULL\<rparr> else l1)
         in Continue (w\<lparr>engine := e2, lst := l2,
                         actconn := actconn w + 1, totalconn := totalconn w + 1\<rparr>)))"

text \<open>
  The loop, over the results the successive \<open>accept()\<close> calls will give; when they are
  exhausted nothing is pending and \<open>accept()\<close> fails with \<open>EAGAIN\<close>, which returns.
  \<open>max_accept\<close> is tested against 0 and then decremented.
\<close>

fun uxst_accept_loop :: "nat \<Rightarrow> int \<Rightarrow> int \<Rightarrow> accept_try list \<Rightarrow> 'v uxst_world \<Rightarrow> 'v uxst_world" where
  "uxst_accept_loop tid maxsock max_accept [] w = w"
| "uxst_accept_loop tid maxsock max_accept (a # pending) w =
     (if max_accept = 0 then w
      else (case uxst_accept_one tid maxsock a w of
              Return w' \<Rightarrow> w'
            | Continue w' \<Rightarrow> uxst_accept_loop tid maxsock (max_accept - 1) pending w'))"

definition uxst_event_accept :: "nat \<Rightarrow> int \<Rightarrow> int \<Rightarrow> accept_try list \<Rightarrow> 'v uxst_world \<Rightarrow> 'v uxst_world" where
  "uxst_event_accept tid nbproc maxsock pending w =
     uxst_accept_loop tid maxsock (if 1 < nbproc then 8 else - 1) pending w"

text \<open>
  \<open>process_uxst_stats\<close> after its state machine loop: \<open>cli\<close> and \<open>srv\<close> are the session's
  \<open>cli_state\<close> and \<open>srv_state\<close> as the loop left them, and \<open>has_listener\<close> tells whether
  \<open>fdtab[s->cli_fd].listener\<close> is non-null. Unless both sides are closed the task is
  queued again and the function returns; otherwise the session is released.
\<close>

datatype cli_state = CL_STDATA | CL_STSHUTR | CL_STSHUTW | CL_STCLOSE

datatype srv_state = SV_STIDLE | SV_STCONN | SV_STDATA | SV_STSHUTR | SV_STSHUTW | SV_STCLOSE

definition process_uxst_stats ::
  "nat \<Rightarrow> cli_state \<Rightarrow> srv_state \<Rightarrow> bool \<Rightarrow> 'v uxst_world \<Rightarrow> 'v uxst_world" where
  "process_uxst_stats tid cli srv has_listener w =
     (if cli = CL_STCLOSE \<and> srv = SV_STCLOSE then
        (let w1 = w\<lparr>actconn := actconn w - 1\<rparr> in
         if has_listener then
           (let l1 = (lst w1)\<lparr>li_nbconn := li_nbconn (lst w1) - 1\<rparr> in
            if li_state l1 = LI_FULL \<and> li_nbconn l1 < li_maxconn l1
            then w1\<lparr>engine := EV_FD_SET tid (li_fd l1) DIR_RD (engine w1),
                    lst := l1\<lparr>li_state := LI_READY\<rparr>\<rparr>
            else w1\<lparr>lst := l1\<rparr>)
         else w1)
      else w)"

text \<open>
  A listener that has reached \<open>maxconn\<close> is in state \<open>LI_FULL\<close> and its descriptor is no
  longer active for reading.
\<close>

definition full_ok :: "'v uxst_world \<Rightarrow> bool" where
  "full_ok w =
     (li_nbconn (lst w) < li_maxconn (lst w)
      \<or> (li_state (lst w) = LI_FULL
          \<and> state (fdtab (engine w) (li_fd (lst w))) AND FD_EV_ACTIVE_R = 0))"

section \<open>Frames of the cache update\<close>

lemma fd_update_cache_fdtab [simp]: "fdtab (fd_update_cache fd s) = fdtab s"
  by (simp add: fd_update_cache_def fd_alloc_cache_entry_def fd_release_cache_entry_def Let_def)

lemma fd_update_cache_fd_updt [simp]: "fd_updt (fd_update_cache fd s) = fd_updt s"
  by (simp add: fd_update_cache_def fd_alloc_cache_entry_def fd_release_cache_entry_def Let_def)

lemma fd_update_cache_fd_nbupdt [simp]: "fd_nbupdt (fd_update_cache fd s) = fd_nbupdt s"
  by (simp add: fd_update_cache_def fd_alloc_cache_entry_def fd_release_cache_entry_def Let_def)

lemma or_and_not_same: "((x::8 word) OR r) AND NOT r = x AND NOT r"
  by (simp add: bit_eq_iff bit_simps) blast

section \<open>Frame of the readiness reports\<close>

text \<open>
  C5. \<open>fd_may_recv\<close> only ORs \<open>FD_EV_READY_R\<close> into the state word of its descriptor:
  the new word is the old one with that bit set, so \<open>FD_EV_POLLED_R\<close> and the whole write
  nibble are as before; no other field of the slot and no other slot changes, and the update
  list, its counter and every \<open>update_mask\<close> are untouched. The same holds for
  \<open>fd_may_send\<close> and \<open>FD_EV_READY_W\<close>.
\<close>

theorem fd_may_only_sets_ready:
  "fdtab (fd_may_recv fd s) = (fdtab s)(fd := (fdtab s fd)\<lparr>state := state (fdtab s fd) OR FD_EV_READY_R\<rparr>)
   \<and> fd_updt (fd_may_recv fd s) = fd_updt s
   \<and> fd_nbupdt (fd_may_recv fd s) = fd_nbupdt s
   \<and> (state (fdtab (fd_may_recv fd s) fd) AND NOT FD_EV_READY_R) = (state (fdtab s fd) AND NOT FD_EV_READY_R)
   \<and> fdtab (fd_may_send fd s) = (fdtab s)(fd := (fdtab s fd)\<lparr>state := state (fdtab s fd) OR FD_EV_READY_W\<rparr>)
   \<and> fd_updt (fd_may_send fd s) = fd_updt s
   \<and> fd_nbupdt (fd_may_send fd s) = fd_nbupdt s
   \<and> (state (fdtab (fd_may_send fd s) fd) AND NOT FD_EV_READY_W) = (state (fdtab s fd) AND NOT FD_EV_READY_W)"
  by (simp add: fd_may_recv_def fd_may_send_def fd_set_state_def or_and_not_same)

section \<open>State words bit by bit\<close>

lemmas FD_EV_defs = FD_EV_POLLED_R_def FD_EV_READY_R_def FD_EV_ACTIVE_R_def
  FD_EV_POLLED_W_def FD_EV_READY_W_def FD_EV_ACTIVE_W_def FD_EV_ACTIVE_RW_def FD_EV_POLLED_RW_def

lemmas prim_defs = fd_want_recv_def fd_want_send_def fd_stop_recv_def fd_stop_send_def
  fd_stop_both_def fd_may_recv_def fd_may_send_def fd_cant_recv_def fd_cant_send_def
  fd_done_recv_def

lemma FD_EV_bits:
  "FD_EV_POLLED_R = 2 ^ 0" "FD_EV_READY_R = 2 ^ 1" "FD_EV_ACTIVE_R = 2 ^ 2"
  "FD_EV_POLLED_W = 2 ^ 4" "FD_EV_READY_W = 2 ^ 5" "FD_EV_ACTIVE_W = 2 ^ 6"
  by (simp_all add: FD_EV_defs)

lemma and_two_bits:
  "((v::8 word) AND (2 ^ a OR 2 ^ b) = 2 ^ a OR 2 ^ b) = ((a < 8 \<longrightarrow> bit v a) \<and> (b < 8 \<longrightarrow> bit v b))"
proof
  assume h: "v AND (2 ^ a OR 2 ^ b) = 2 ^ a OR 2 ^ b"
  have "bit (v AND (2 ^ a OR 2 ^ b)) n = bit ((2 ^ a OR 2 ^ b) :: 8 word) n" for n
    by (simp only: h)
  then have "bit v n \<and> (n < 8 \<and> n = a \<or> n < 8 \<and> n = b) \<longleftrightarrow> (n < 8 \<and> n = a \<or> n < 8 \<and> n = b)" for n
    by (simp add: bit_simps)
  then show "(a < 8 \<longrightarrow> bit v a) \<and> (b < 8 \<longrightarrow> bit v b)"
    by blast
next
  assume "(a < 8 \<longrightarrow> bit v a) \<and> (b < 8 \<longrightarrow> bit v b)"
  then show "v AND (2 ^ a OR 2 ^ b) = 2 ^ a OR 2 ^ b"
    by (intro bit_word_eqI) (auto simp add: bit_simps)
qed

lemma and_one_bit:
  "((v::8 word) AND 2 ^ n = 2 ^ n) = (n < 8 \<longrightarrow> bit v n)"
  using and_two_bits [of v n n] by simp

lemma updt_fd_polling_state [simp]:
  "state (fdtab (updt_fd_polling tid fd s) fd') = state (fdtab s fd')"
  by (simp add: updt_fd_polling_def Let_def)

lemma fd_set_state_state [simp]:
  "state (fdtab (fd_set_state fd v s) fd') = (if fd' = fd then v else state (fdtab s fd'))"
  by (simp add: fd_set_state_def)

section \<open>Polling is only requested for an active direction\<close>

lemma pa_bits: "polled_active v = ((bit v 0 \<longrightarrow> bit v 2) \<and> (bit v 4 \<longrightarrow> bit v 6))"
  unfolding polled_active_def FD_EV_bits by (auto simp only: and_exp_eq_0_iff_not_bit)

lemma prim_polled_active:
  "polled_active (state (fdtab s fd')) \<Longrightarrow> polled_active (state (fdtab (fd_prim_call p tid fd s) fd'))"
  by (cases p; simp add: prim_defs Let_def;
      unfold pa_bits FD_EV_ACTIVE_RW_def FD_EV_POLLED_RW_def FD_EV_bits and_exp_eq_0_iff_not_bit and_two_bits;
      auto simp add: bit_simps)

lemma run_polled_active:
  "(\<And>fd. polled_active (state (fdtab s fd))) \<Longrightarrow> polled_active (state (fdtab (fd_run cs s) fd))"
proof (induction cs arbitrary: s)
  case Nil
  then show ?case by simp
next
  case (Cons c cs)
  obtain p tid fd' where c: "c = (p, tid, fd')" by (cases c)
  show ?case unfolding c fd_run.simps
    by (rule Cons.IH) (rule prim_polled_active, rule Cons.prems)
qed

lemma run_want_may:
  "state (fdtab (fd_run [(Want_recv, 0, 7), (May_recv, 0, 7)] (fd_engine_zero :: nat fd_engine)) 7) = 7"
  by (simp add: prim_defs fd_engine_zero_def Let_def FD_EV_defs)

text \<open>
  C1, as the code has it. After any sequence of transition primitives from the all-zero
  engine, in the state word of every descriptor \<open>FD_EV_POLLED_R\<close> implies
  \<open>FD_EV_ACTIVE_R\<close> and \<open>FD_EV_POLLED_W\<close> implies \<open>FD_EV_ACTIVE_W\<close>. Nothing is
  said of READY: \<open>fd_may_recv\<close> and \<open>fd_may_send\<close> set it whatever the POLLED bit is
  ("marking ready never changes polled status").
\<close>

theorem fd_polled_implies_active:
  "(state (fdtab (fd_run cs (fd_engine_zero :: 'v::zero fd_engine)) fd) AND FD_EV_POLLED_R \<noteq> 0
      \<longrightarrow> state (fdtab (fd_run cs (fd_engine_zero :: 'v::zero fd_engine)) fd) AND FD_EV_ACTIVE_R \<noteq> 0)
   \<and> (state (fdtab (fd_run cs (fd_engine_zero :: 'v::zero fd_engine)) fd) AND FD_EV_POLLED_W \<noteq> 0
      \<longrightarrow> state (fdtab (fd_run cs (fd_engine_zero :: 'v::zero fd_engine)) fd) AND FD_EV_ACTIVE_W \<noteq> 0)"
proof -
  have "polled_active (state (fdtab (fd_run cs (fd_engine_zero :: 'v::zero fd_engine)) fd))"
    by (rule run_polled_active) (simp add: fd_engine_zero_def polled_active_def)
  then show ?thesis by (auto simp add: polled_active_def)
qed

theorem fd_polled_implies_active_witness:
  "state (fdtab (fd_run [(Want_recv, 0, 7), (May_recv, 0, 7)] (fd_engine_zero :: nat fd_engine)) 7) AND FD_EV_POLLED_R \<noteq> 0
   \<and> state (fdtab (fd_run [(Want_recv, 0, 7), (May_recv, 0, 7)] (fd_engine_zero :: nat fd_engine)) 7) AND FD_EV_ACTIVE_R \<noteq> 0"
  using fd_polled_implies_active [of "[(Want_recv, 0, 7), (May_recv, 0, 7)]" 7, where ?'v = nat]
  unfolding run_want_may by (simp add: FD_EV_defs)

text \<open>
  C1 as stated fails: after \<open>fd_want_recv(7)\<close> and \<open>fd_may_recv(7)\<close> from the all-zero
  engine the state word of descriptor 7 is \<open>POLLED_R | READY_R | ACTIVE_R\<close>, so POLLED_R
  holds together with READY_R.
\<close>

theorem fd_polled_and_ready_counterexample:
  "\<not> (state (fdtab (fd_run [(Want_recv, 0, 7), (May_recv, 0, 7)] (fd_engine_zero :: nat fd_engine)) 7) AND FD_EV_POLLED_R \<noteq> 0
      \<longrightarrow> state (fdtab (fd_run [(Want_recv, 0, 7), (May_recv, 0, 7)] (fd_engine_zero :: nat fd_engine)) 7) AND FD_EV_ACTIVE_R \<noteq> 0
        \<and> state (fdtab (fd_run [(Want_recv, 0, 7), (May_recv, 0, 7)] (fd_engine_zero :: nat fd_engine)) 7) AND FD_EV_READY_R = 0)"
  unfolding run_want_may by (simp add: FD_EV_defs)

section \<open>The descriptor bitmap helpers\<close>

lemma scast_32_64_inj: "(scast (a::32 word) :: 64 word) = scast b \<Longrightarrow> a = b"
proof -
  assume h: "(scast a :: 64 word) = scast b"
  have up: "is_up (scast :: 32 word \<Rightarrow> 64 word)" by (simp add: is_up)
  have "a = scast (scast a :: 64 word)" by (simp add: scast_up_scast_id [OF up])
  also have "\<dots> = scast (scast b :: 64 word)" by (simp only: h)
  also have "\<dots> = b" by (simp add: scast_up_scast_id [OF up])
  finally show "a = b" .
qed

lemma and_31_mod: "unat ((w::64 word) AND 31) = unat w mod 32"
proof -
  have "(31::64 word) = mask 5" by (simp add: mask_eq_exp_minus_1)
  then have "w AND 31 = take_bit 5 w" by (simp only: take_bit_eq_mask)
  then show ?thesis by (simp add: unsigned_take_bit_eq take_bit_eq_mod unat_mod)
qed

lemma div_32_unat: "unat ((w::64 word) div 32) = unat w div 32"
  by (simp add: unat_div)

lemma hap_fd_pos_lt: "unat ((scast (fd::32 word) :: 64 word) AND 31) < 32"
  by (simp add: and_31_mod)

lemma hap_fd_inj:
  assumes "hap_fd_index fd = hap_fd_index fd2"
    and "unat ((scast fd :: 64 word) AND 31) = unat ((scast fd2 :: 64 word) AND 31)"
  shows "fd = fd2"
proof -
  let ?w = "scast fd :: 64 word" and ?w2 = "scast fd2 :: 64 word"
  have "unat ?w div 32 = unat ?w2 div 32"
    using assms(1) by (simp add: hap_fd_index_def div_32_unat)
  moreover have "unat ?w mod 32 = unat ?w2 mod 32"
    using assms(2) by (simp add: and_31_mod)
  ultimately have "unat ?w = unat ?w2"
    by (metis div_mult_mod_eq)
  then have "?w = ?w2" by (simp add: word_unat_eq_iff)
  then show ?thesis by (rule scast_32_64_inj)
qed

lemma bit_hap_fd_bit: "bit (hap_fd_bit fd) n \<longleftrightarrow> n = unat ((scast fd :: 64 word) AND 31)"
  using hap_fd_pos_lt [of fd] by (auto simp add: hap_fd_bit_def bit_simps)

text \<open>
  C10. The three helpers behave as a bitmap indexed by the descriptor: after \<open>hap_fd_set\<close>
  the test \<open>hap_fd_isset\<close> of the same descriptor is non-zero, after \<open>hap_fd_clr\<close> it
  is zero, and neither changes the test of any other descriptor.
\<close>

theorem hap_fd_bitmap:
  "hap_fd_isset fd (hap_fd_set fd evts) \<noteq> 0
   \<and> hap_fd_isset fd (hap_fd_clr fd evts) = 0
   \<and> (fd2 \<noteq> fd \<longrightarrow> hap_fd_isset fd2 (hap_fd_set fd evts) = hap_fd_isset fd2 evts
                  \<and> hap_fd_isset fd2 (hap_fd_clr fd evts) = hap_fd_isset fd2 evts)"
proof (intro conjI impI)
  have "bit (hap_fd_isset fd (hap_fd_set fd evts)) (unat ((scast fd :: 64 word) AND 31))"
    by (simp add: hap_fd_isset_def hap_fd_set_def bit_simps bit_hap_fd_bit)
  then show "hap_fd_isset fd (hap_fd_set fd evts) \<noteq> 0" by auto
  show "hap_fd_isset fd (hap_fd_clr fd evts) = 0"
    by (intro bit_word_eqI) (simp add: hap_fd_isset_def hap_fd_clr_def bit_simps bit_hap_fd_bit)
next
  assume ne: "fd2 \<noteq> fd"
  show "hap_fd_isset fd2 (hap_fd_set fd evts) = hap_fd_isset fd2 evts"
  proof (cases "hap_fd_index fd2 = hap_fd_index fd")
    case False
    then show ?thesis by (simp add: hap_fd_isset_def hap_fd_set_def)
  next
    case True
    with ne have "unat ((scast fd2 :: 64 word) AND 31) \<noteq> unat ((scast fd :: 64 word) AND 31)"
      using hap_fd_inj by blast
    then show ?thesis
      by (intro bit_word_eqI) (auto simp add: hap_fd_isset_def hap_fd_set_def bit_simps bit_hap_fd_bit True)
  qed
  show "hap_fd_isset fd2 (hap_fd_clr fd evts) = hap_fd_isset fd2 evts"
  proof (cases "hap_fd_index fd2 = hap_fd_index fd")
    case False
    then show ?thesis by (simp add: hap_fd_isset_def hap_fd_clr_def)
  next
    case True
    with ne have "unat ((scast fd2 :: 64 word) AND 31) \<noteq> unat ((scast fd :: 64 word) AND 31)"
      using hap_fd_inj by blast
    then show ?thesis
      by (intro bit_word_eqI) (auto simp add: hap_fd_isset_def hap_fd_clr_def bit_simps bit_hap_fd_bit True)
  qed
qed


theorem hap_fd_bitmap_witness:
  "(37::32 word) \<noteq> 5
   \<and> hap_fd_isset 37 (hap_fd_set 5 (\<lambda>i. if i = 1 then 32 else 0)) = hap_fd_isset 37 (\<lambda>i. if i = 1 then 32 else 0)
   \<and> hap_fd_isset 37 (hap_fd_clr 5 (\<lambda>i. if i = 1 then 32 else 0)) = hap_fd_isset 37 (\<lambda>i. if i = 1 then 32 else 0)"
  using hap_fd_bitmap [of 5 "\<lambda>i. if i = 1 then 32 else 0" 37] by simp

section \<open>Wanting to receive, and being done receiving\<close>

lemma updt_view_update_cache [simp]: "updt_view (fd_update_cache fd s) = updt_view s"
  by (simp add: updt_view_def)

lemma updt_view_set_state [simp]: "updt_view (fd_set_state fd v s) = updt_view s"
  by (auto simp add: updt_view_def fd_set_state_def)

lemma updt_view_polling_set_state [simp]:
  "updt_view (updt_fd_polling tid fd (fd_set_state fd' v s)) = updt_view (updt_fd_polling tid fd s)"
  by (auto simp add: updt_view_def updt_fd_polling_def fd_set_state_def Let_def)

lemma xor_and_eq_0_iff: "(((a::8 word) XOR b) AND p = 0) = (b AND p = a AND p)"
  by (simp add: bit_eq_iff bit_simps) blast

lemma or_active_and_ready_R:
  "(old OR FD_EV_ACTIVE_R) AND FD_EV_READY_R = old AND FD_EV_READY_R"
  unfolding FD_EV_bits by (intro bit_word_eqI) (auto simp add: bit_simps)

lemma want_recv_new:
  "(if (old OR FD_EV_ACTIVE_R) AND FD_EV_READY_R = 0 then (old OR FD_EV_ACTIVE_R) OR FD_EV_POLLED_R else old OR FD_EV_ACTIVE_R)
   = old OR FD_EV_ACTIVE_R OR (if old AND FD_EV_READY_R = 0 then FD_EV_POLLED_R else 0)"
  by (simp add: or_active_and_ready_R or.assoc)

lemma fd_want_recv_active: "state (fdtab s fd) AND FD_EV_ACTIVE_R \<noteq> 0 \<Longrightarrow> fd_want_recv tid fd s = s"
  by (simp add: fd_want_recv_def)

lemma fd_want_recv_word:
  "state (fdtab s fd) AND FD_EV_ACTIVE_R = 0 \<Longrightarrow>
   state (fdtab (fd_want_recv tid fd s) fd') =
     (if fd' = fd then state (fdtab s fd) OR FD_EV_ACTIVE_R OR (if state (fdtab s fd) AND FD_EV_READY_R = 0 then FD_EV_POLLED_R else 0)
      else state (fdtab s fd'))"
  unfolding fd_want_recv_def Let_def want_recv_new by simp

lemma fd_want_recv_updt:
  "state (fdtab s fd) AND FD_EV_ACTIVE_R = 0 \<Longrightarrow>
   updt_view (fd_want_recv tid fd s) =
     (if state (fdtab (fd_want_recv tid fd s) fd) AND FD_EV_POLLED_R = state (fdtab s fd) AND FD_EV_POLLED_R
      then updt_view s else updt_view (updt_fd_polling tid fd s))"
  by (simp add: fd_want_recv_def Let_def xor_and_eq_0_iff)

lemma fd_insert_want_recv_word:
  "state (fdtab (fd_want_recv tid fd (fd_insert tid fd own cb tm (fd_engine_zero :: 'v::zero fd_engine))) fd) = FD_EV_POLLED_R OR FD_EV_ACTIVE_R"
  by (simp add: fd_want_recv_def fd_insert_def fd_engine_zero_def Let_def FD_EV_defs)

lemma fd_insert_want_recv_list:
  "updt_list (fd_want_recv tid fd (fd_insert tid fd own cb tm (fd_engine_zero :: 'v::zero fd_engine))) tid = [fd]"
  by (simp add: fd_want_recv_def fd_insert_def fd_engine_zero_def Let_def FD_EV_defs updt_list_def updt_fd_polling_def fd_set_state_def)

lemma fd_insert_want_recv_cache:
  "\<not> fd_cached (fd_want_recv tid fd (fd_insert tid fd own cb tm (fd_engine_zero :: 'v::zero fd_engine))) fd'"
  by (simp add: fd_want_recv_def fd_insert_def fd_engine_zero_def Let_def FD_EV_defs updt_fd_polling_def fd_set_state_def
      fd_cached_def fd_update_cache_def fd_release_cache_entry_def fd_rm_from_fd_list_def)

text \<open>
  C3. When \<open>FD_EV_ACTIVE_R\<close> is already set \<open>fd_want_recv\<close> changes nothing at all.
  Otherwise the state word of the descriptor becomes the old one with \<open>FD_EV_ACTIVE_R\<close>
  set, and with \<open>FD_EV_POLLED_R\<close> set too exactly when \<open>FD_EV_READY_R\<close> was clear; no
  other state word changes; and the update masks, lists and counters are those left by one
  call of \<open>updt_fd_polling\<close> when the \<open>FD_EV_POLLED_R\<close> bit changed, and the old ones
  when it did not. After \<open>fd_insert\<close> and \<open>fd_want_recv\<close> on the all-zero engine the
  state word is \<open>POLLED_R | ACTIVE_R\<close>, the update list of the calling thread is the
  descriptor alone, and no ready cache holds it.
\<close>

theorem fd_want_recv_effect:
  "(state (fdtab s fd) AND FD_EV_ACTIVE_R \<noteq> 0 \<longrightarrow> fd_want_recv tid fd s = s)
   \<and> (state (fdtab s fd) AND FD_EV_ACTIVE_R = 0 \<longrightarrow>
        (\<forall>fd'. state (fdtab (fd_want_recv tid fd s) fd') =
           (if fd' = fd
            then state (fdtab s fd) OR FD_EV_ACTIVE_R
                 OR (if state (fdtab s fd) AND FD_EV_READY_R = 0 then FD_EV_POLLED_R else 0)
            else state (fdtab s fd')))
        \<and> updt_view (fd_want_recv tid fd s) =
           (if state (fdtab (fd_want_recv tid fd s) fd) AND FD_EV_POLLED_R = state (fdtab s fd) AND FD_EV_POLLED_R
            then updt_view s else updt_view (updt_fd_polling tid fd s)))
   \<and> state (fdtab (fd_want_recv tid fd (fd_insert tid fd own cb tm (fd_engine_zero :: 'v::zero fd_engine))) fd)
        = FD_EV_POLLED_R OR FD_EV_ACTIVE_R
   \<and> updt_list (fd_want_recv tid fd (fd_insert tid fd own cb tm (fd_engine_zero :: 'v fd_engine))) tid = [fd]
   \<and> \<not> fd_cached (fd_want_recv tid fd (fd_insert tid fd own cb tm (fd_engine_zero :: 'v fd_engine))) fd"
  using fd_want_recv_active [of s fd tid] fd_want_recv_word [of s fd tid] fd_want_recv_updt [of s fd tid]
    fd_insert_want_recv_word [of tid fd own cb tm, where ?'v = 'v]
    fd_insert_want_recv_list [of tid fd own cb tm, where ?'v = 'v]
    fd_insert_want_recv_cache [of tid fd own cb tm fd, where ?'v = 'v]
  by blast

lemma want_recv_zero_word:
  "state (fdtab (fd_want_recv 0 7 (fd_engine_zero :: nat fd_engine)) 7) = 5"
  by (simp add: fd_want_recv_def fd_engine_zero_def Let_def FD_EV_defs)

theorem fd_want_recv_effect_witness:
  "state (fdtab (fd_engine_zero :: nat fd_engine) 7) AND FD_EV_ACTIVE_R = 0
   \<and> state (fdtab (fd_want_recv 0 7 (fd_engine_zero :: nat fd_engine)) 7) = 5
   \<and> state (fdtab (fd_want_recv 0 7 (fd_engine_zero :: nat fd_engine)) 7) AND FD_EV_ACTIVE_R \<noteq> 0
   \<and> fd_want_recv 0 7 (fd_want_recv 0 7 (fd_engine_zero :: nat fd_engine))
       = fd_want_recv 0 7 (fd_engine_zero :: nat fd_engine)"
  using fd_want_recv_effect [where s = "fd_engine_zero :: nat fd_engine" and fd = 7 and tid = 0
      and own = 0 and cb = 0 and tm = 1, where ?'v = nat]
    fd_want_recv_effect [where s = "fd_want_recv 0 7 (fd_engine_zero :: nat fd_engine)" and fd = 7 and tid = 0
      and own = 0 and cb = 0 and tm = 1, where ?'v = nat]
  unfolding want_recv_zero_word
  by (simp add: fd_engine_zero_def FD_EV_defs)

lemma done_recv_new:
  "old AND (FD_EV_POLLED_R OR FD_EV_READY_R) = (FD_EV_POLLED_R OR FD_EV_READY_R) \<Longrightarrow>
   (if (old AND NOT FD_EV_READY_R) AND FD_EV_ACTIVE_R = 0 then old AND NOT FD_EV_READY_R
    else (old AND NOT FD_EV_READY_R) OR FD_EV_POLLED_R) = old AND NOT FD_EV_READY_R"
  unfolding FD_EV_bits and_two_bits
  by (intro bit_word_eqI) (auto simp add: bit_simps)

lemma fd_done_recv_skip:
  "state (fdtab s fd) AND (FD_EV_POLLED_R OR FD_EV_READY_R) \<noteq> (FD_EV_POLLED_R OR FD_EV_READY_R)
   \<Longrightarrow> fd_done_recv tid fd s = s"
  by (simp add: fd_done_recv_def)

lemma fd_done_recv_word:
  "state (fdtab s fd) AND (FD_EV_POLLED_R OR FD_EV_READY_R) = (FD_EV_POLLED_R OR FD_EV_READY_R) \<Longrightarrow>
   state (fdtab (fd_done_recv tid fd s) fd') =
     (if fd' = fd then state (fdtab s fd) AND NOT FD_EV_READY_R else state (fdtab s fd'))"
  by (simp add: fd_done_recv_def Let_def done_recv_new)

lemma fd_done_recv_updt:
  "state (fdtab s fd) AND (FD_EV_POLLED_R OR FD_EV_READY_R) = (FD_EV_POLLED_R OR FD_EV_READY_R) \<Longrightarrow>
   updt_view (fd_done_recv tid fd s) =
     (if state (fdtab (fd_done_recv tid fd s) fd) AND FD_EV_POLLED_R = state (fdtab s fd) AND FD_EV_POLLED_R
      then updt_view s else updt_view (updt_fd_polling tid fd s))"
  by (simp add: fd_done_recv_def Let_def xor_and_eq_0_iff done_recv_new)

lemma done_recv_bits:
  "((old::8 word) AND NOT FD_EV_READY_R) AND FD_EV_READY_R = 0"
  "old AND (FD_EV_POLLED_R OR FD_EV_READY_R) = (FD_EV_POLLED_R OR FD_EV_READY_R) \<Longrightarrow>
     (old AND NOT FD_EV_READY_R) AND FD_EV_POLLED_R = FD_EV_POLLED_R"
  "(old AND NOT FD_EV_READY_R) AND NOT (FD_EV_READY_R OR FD_EV_POLLED_R) = old AND NOT (FD_EV_READY_R OR FD_EV_POLLED_R)"
  unfolding FD_EV_bits and_two_bits
  by (intro bit_word_eqI; auto simp add: bit_simps)+

text \<open>
  C4. \<open>fd_done_recv\<close> changes nothing unless both \<open>FD_EV_POLLED_R\<close> and
  \<open>FD_EV_READY_R\<close> are set. When they are, the new state word of the descriptor is the old
  one with \<open>FD_EV_READY_R\<close> cleared and no other state word changes. So \<open>FD_EV_READY_R\<close>
  is clear, \<open>FD_EV_POLLED_R\<close> is set, as it was (in particular when \<open>FD_EV_ACTIVE_R\<close> is
  set), and every bit other than these two is as before. The update masks, lists and counters
  are those left by one call of \<open>updt_fd_polling\<close> when the \<open>FD_EV_POLLED_R\<close> bit
  changed and the old ones when it did not; as the bit never changes here, they are the old
  ones.
\<close>

theorem fd_done_recv_effect:
  "(state (fdtab s fd) AND (FD_EV_POLLED_R OR FD_EV_READY_R) \<noteq> (FD_EV_POLLED_R OR FD_EV_READY_R)
      \<longrightarrow> fd_done_recv tid fd s = s)
   \<and> (state (fdtab s fd) AND (FD_EV_POLLED_R OR FD_EV_READY_R) = (FD_EV_POLLED_R OR FD_EV_READY_R) \<longrightarrow>
        (\<forall>fd'. state (fdtab (fd_done_recv tid fd s) fd') =
           (if fd' = fd then state (fdtab s fd) AND NOT FD_EV_READY_R else state (fdtab s fd')))
        \<and> state (fdtab (fd_done_recv tid fd s) fd) AND FD_EV_READY_R = 0
        \<and> state (fdtab (fd_done_recv tid fd s) fd) AND FD_EV_POLLED_R = FD_EV_POLLED_R
        \<and> (state (fdtab (fd_done_recv tid fd s) fd) AND FD_EV_ACTIVE_R \<noteq> 0
             \<longrightarrow> state (fdtab (fd_done_recv tid fd s) fd) AND FD_EV_POLLED_R = FD_EV_POLLED_R)
        \<and> state (fdtab (fd_done_recv tid fd s) fd) AND NOT (FD_EV_READY_R OR FD_EV_POLLED_R)
            = state (fdtab s fd) AND NOT (FD_EV_READY_R OR FD_EV_POLLED_R)
        \<and> updt_view (fd_done_recv tid fd s) =
           (if state (fdtab (fd_done_recv tid fd s) fd) AND FD_EV_POLLED_R = state (fdtab s fd) AND FD_EV_POLLED_R
            then updt_view s else updt_view (updt_fd_polling tid fd s))
        \<and> updt_view (fd_done_recv tid fd s) = updt_view s)"
proof (intro conjI impI allI)
  assume "state (fdtab s fd) AND (FD_EV_POLLED_R OR FD_EV_READY_R) \<noteq> (FD_EV_POLLED_R OR FD_EV_READY_R)"
  then show "fd_done_recv tid fd s = s" by (rule fd_done_recv_skip)
next
  assume g: "state (fdtab s fd) AND (FD_EV_POLLED_R OR FD_EV_READY_R) = (FD_EV_POLLED_R OR FD_EV_READY_R)"
  show "state (fdtab (fd_done_recv tid fd s) fd') =
           (if fd' = fd then state (fdtab s fd) AND NOT FD_EV_READY_R else state (fdtab s fd'))" for fd'
    by (rule fd_done_recv_word [OF g])
  show "state (fdtab (fd_done_recv tid fd s) fd) AND FD_EV_READY_R = 0"
    by (simp add: fd_done_recv_word [OF g] done_recv_bits(1))
  show p: "state (fdtab (fd_done_recv tid fd s) fd) AND FD_EV_POLLED_R = FD_EV_POLLED_R"
    by (simp add: fd_done_recv_word [OF g] done_recv_bits(2) [OF g])
  from p show "state (fdtab (fd_done_recv tid fd s) fd) AND FD_EV_POLLED_R = FD_EV_POLLED_R" .
  show "state (fdtab (fd_done_recv tid fd s) fd) AND NOT (FD_EV_READY_R OR FD_EV_POLLED_R)
            = state (fdtab s fd) AND NOT (FD_EV_READY_R OR FD_EV_POLLED_R)"
    using done_recv_bits(3) [of "state (fdtab s fd)"] by (simp add: fd_done_recv_word [OF g])
  show u: "updt_view (fd_done_recv tid fd s) =
           (if state (fdtab (fd_done_recv tid fd s) fd) AND FD_EV_POLLED_R = state (fdtab s fd) AND FD_EV_POLLED_R
            then updt_view s else updt_view (updt_fd_polling tid fd s))"
    by (rule fd_done_recv_updt [OF g])
  have "state (fdtab s fd) AND FD_EV_POLLED_R = FD_EV_POLLED_R"
    using g unfolding FD_EV_bits and_two_bits and_one_bit by simp
  with p u show "updt_view (fd_done_recv tid fd s) = updt_view s"
    by simp
qed

lemma run_want_may_done:
  "state (fdtab (fd_done_recv 0 7 (fd_may_recv 7 (fd_want_recv 0 7 (fd_engine_zero :: nat fd_engine)))) 7) = 5"
  "state (fdtab (fd_may_recv 7 (fd_want_recv 0 7 (fd_engine_zero :: nat fd_engine))) 7) = 7"
  "state (fdtab (fd_set_state 7 3 (fd_engine_zero :: nat fd_engine)) 7) = 3"
  "state (fdtab (fd_done_recv 0 7 (fd_set_state 7 3 (fd_engine_zero :: nat fd_engine))) 7) = 1"
  by (simp_all add: prim_defs fd_engine_zero_def Let_def FD_EV_defs)

theorem fd_done_recv_effect_witness:
  "state (fdtab (fd_may_recv 7 (fd_want_recv 0 7 (fd_engine_zero :: nat fd_engine))) 7) AND (FD_EV_POLLED_R OR FD_EV_READY_R)
     = (FD_EV_POLLED_R OR FD_EV_READY_R)
   \<and> state (fdtab (fd_done_recv 0 7 (fd_may_recv 7 (fd_want_recv 0 7 (fd_engine_zero :: nat fd_engine)))) 7) = 5
   \<and> state (fdtab (fd_done_recv 0 7 (fd_may_recv 7 (fd_want_recv 0 7 (fd_engine_zero :: nat fd_engine)))) 7) AND FD_EV_ACTIVE_R \<noteq> 0
   \<and> state (fdtab (fd_done_recv 0 7 (fd_may_recv 7 (fd_want_recv 0 7 (fd_engine_zero :: nat fd_engine)))) 7) AND FD_EV_POLLED_R = FD_EV_POLLED_R
   \<and> state (fdtab (fd_set_state 7 3 (fd_engine_zero :: nat fd_engine)) 7) AND (FD_EV_POLLED_R OR FD_EV_READY_R)
     = (FD_EV_POLLED_R OR FD_EV_READY_R)
   \<and> state (fdtab (fd_done_recv 0 7 (fd_set_state 7 3 (fd_engine_zero :: nat fd_engine))) 7) = 1
   \<and> updt_view (fd_done_recv 0 7 (fd_set_state 7 3 (fd_engine_zero :: nat fd_engine)))
       = updt_view (fd_set_state 7 3 (fd_engine_zero :: nat fd_engine))
   \<and> state (fdtab (fd_engine_zero :: nat fd_engine) 7) AND (FD_EV_POLLED_R OR FD_EV_READY_R) \<noteq> (FD_EV_POLLED_R OR FD_EV_READY_R)
   \<and> fd_done_recv 0 7 (fd_engine_zero :: nat fd_engine) = fd_engine_zero"
  using fd_done_recv_effect [where s = "fd_may_recv 7 (fd_want_recv 0 7 (fd_engine_zero :: nat fd_engine))" and fd = 7 and tid = 0]
    fd_done_recv_effect [where s = "fd_set_state 7 3 (fd_engine_zero :: nat fd_engine)" and fd = 7 and tid = 0]
    fd_done_recv_effect [where s = "fd_engine_zero :: nat fd_engine" and fd = 7 and tid = 0]
  unfolding run_want_may_done
  by (simp add: fd_engine_zero_def FD_EV_defs)

section \<open>The update list\<close>










lemma fd_insert_updt_list [simp]: "updt_list (fd_insert tid fd own cb tmask s) t = updt_list s t"
  by (simp add: fd_insert_def updt_list_def)










section \<open>Folding kernel events into the state\<close>

lemma fd_may_recv_ev [simp]: "ev (fdtab (fd_may_recv fd s) fd') = ev (fdtab s fd')"
  by (simp add: fd_may_recv_def fd_set_state_def)

lemma fd_may_send_ev [simp]: "ev (fdtab (fd_may_send fd s) fd') = ev (fdtab s fd')"
  by (simp add: fd_may_send_def fd_set_state_def)

lemma fd_may_recv_state [simp]:
  "state (fdtab (fd_may_recv fd s) fd') = (if fd' = fd then state (fdtab s fd) OR FD_EV_READY_R else state (fdtab s fd'))"
  by (simp add: fd_may_recv_def)

lemma fd_may_send_state [simp]:
  "state (fdtab (fd_may_send fd s) fd') = (if fd' = fd then state (fdtab s fd) OR FD_EV_READY_W else state (fdtab s fd'))"
  by (simp add: fd_may_send_def)

lemma fd_update_events_ev:
  "ev (fdtab (fd_update_events c fd evts s) fd) = (ev (fdtab s fd) AND FD_POLL_STICKY c) OR scast evts"
  by (simp add: fd_update_events_def Let_def)

lemma fd_update_events_calls:
  "fd_update_events c fd evts s =
     (if ((ev (fdtab s fd) AND FD_POLL_STICKY c) OR scast evts) AND (FD_POLL_OUT c OR FD_POLL_ERR c) = 0
      then (\<lambda>s. s) else fd_may_send fd)
       ((if ((ev (fdtab s fd) AND FD_POLL_STICKY c) OR scast evts) AND (FD_POLL_IN c OR FD_POLL_HUP c OR FD_POLL_ERR c) = 0
         then (\<lambda>s. s) else fd_may_recv fd)
          (s\<lparr>fdtab := (fdtab s)(fd := (fdtab s fd)\<lparr>ev := (ev (fdtab s fd) AND FD_POLL_STICKY c) OR scast evts\<rparr>)\<rparr>))"
  by (simp add: fd_update_events_def Let_def)

lemma fd_update_events_state:
  "state (fdtab (fd_update_events c fd evts s) fd) =
     state (fdtab s fd)
     OR (if ((ev (fdtab s fd) AND FD_POLL_STICKY c) OR scast evts) AND (FD_POLL_IN c OR FD_POLL_HUP c OR FD_POLL_ERR c) = 0
         then 0 else FD_EV_READY_R)
     OR (if ((ev (fdtab s fd) AND FD_POLL_STICKY c) OR scast evts) AND (FD_POLL_OUT c OR FD_POLL_ERR c) = 0
         then 0 else FD_EV_READY_W)"
  by (simp add: fd_update_events_calls or.assoc)

text \<open>
  C7. \<open>fd_update_events\<close> sets the \<open>ev\<close> field of the descriptor to its old value
  masked by \<open>FD_POLL_STICKY\<close>, ORed with \<open>evts\<close> (converted to the type of the field).
  It then runs \<open>fd_may_recv\<close> exactly when the resulting \<open>ev\<close> has one of
  \<open>FD_POLL_IN\<close>, \<open>FD_POLL_HUP\<close>, \<open>FD_POLL_ERR\<close>, and after it \<open>fd_may_send\<close>
  exactly when the resulting \<open>ev\<close> has \<open>FD_POLL_OUT\<close> or \<open>FD_POLL_ERR\<close>; so the
  state word gains \<open>FD_EV_READY_R\<close> and \<open>FD_EV_READY_W\<close> under these conditions and
  is otherwise as before. This holds for any values of the \<open>FD_POLL_*\<close> constants.
\<close>

theorem fd_update_events_effect:
  "ev (fdtab (fd_update_events c fd evts s) fd) = (ev (fdtab s fd) AND FD_POLL_STICKY c) OR scast evts
   \<and> fd_update_events c fd evts s =
     (if ev (fdtab (fd_update_events c fd evts s) fd) AND (FD_POLL_OUT c OR FD_POLL_ERR c) = 0
      then (\<lambda>s. s) else fd_may_send fd)
       ((if ev (fdtab (fd_update_events c fd evts s) fd) AND (FD_POLL_IN c OR FD_POLL_HUP c OR FD_POLL_ERR c) = 0
         then (\<lambda>s. s) else fd_may_recv fd)
          (s\<lparr>fdtab := (fdtab s)(fd := (fdtab s fd)\<lparr>ev := (ev (fdtab s fd) AND FD_POLL_STICKY c) OR scast evts\<rparr>)\<rparr>))
   \<and> state (fdtab (fd_update_events c fd evts s) fd) =
     state (fdtab s fd)
     OR (if ev (fdtab (fd_update_events c fd evts s) fd) AND (FD_POLL_IN c OR FD_POLL_HUP c OR FD_POLL_ERR c) = 0
         then 0 else FD_EV_READY_R)
     OR (if ev (fdtab (fd_update_events c fd evts s) fd) AND (FD_POLL_OUT c OR FD_POLL_ERR c) = 0
         then 0 else FD_EV_READY_W)"
  unfolding fd_update_events_ev
  using fd_update_events_calls [of c fd evts s] fd_update_events_state [of c fd evts s]
  by blast

section \<open>Routing of cache entries\<close>

lemma find_upt_first:
  "t < n \<Longrightarrow> P t \<Longrightarrow> (\<And>j. j < t \<Longrightarrow> \<not> P j) \<Longrightarrow> List.find P [0..<n] = Some t"
  by (auto simp add: find_Some_iff intro!: exI [of _ t])

lemma my_ffsl_single: "t < 64 \<Longrightarrow> my_ffsl (push_bit t 1) = Suc t"
proof -
  assume t: "t < 64"
  have "List.find (bit (push_bit t 1 :: 64 word)) [0..<64] = Some t"
    using t by (intro find_upt_first) (auto simp add: bit_simps)
  then show ?thesis by (simp add: my_ffsl_def)
qed

lemma single_bit_test: "(push_bit t 1 :: 64 word) AND (push_bit t 1 - 1) = 0"
  by (simp add: push_bit_eq_mult flip: mask_eq_exp_minus_1) (intro bit_word_eqI, auto simp add: bit_simps)

lemma nat_and_pred: "(n::nat) AND (n - 1) = 0 \<Longrightarrow> n = 0 \<or> (\<exists>k. n = 2 ^ k)"
proof (induction n rule: nat_bit_induct)
  case zero
  then show ?case by simp
next
  case (even n)
  have "2 * n - 1 = 2 * (n - 1) + 1" using even.hyps by simp
  then have "(2 * n) AND (2 * n - 1) = 2 * (n AND (n - 1))"
    by (subst and_nat_rec) simp
  with even.prems have "n AND (n - 1) = 0" by simp
  with even.IH even.hyps obtain k where "n = 2 ^ k" by auto
  then have "2 * n = (2::nat) ^ Suc k" by simp
  then have "\<exists>k. 2 * n = (2::nat) ^ k" by (rule exI)
  then show ?case by simp
next
  case (odd n)
  have "(2 * n + 1) AND (2 * n + 1 - 1) = 2 * n"
    by (subst and_nat_rec) simp
  with odd.prems have "n = 0" by simp
  then have "2 * n + 1 = (2::nat) ^ 0" by simp
  then have "\<exists>k. 2 * n + 1 = (2::nat) ^ k" by (rule exI)
  then show ?case by simp
qed


lemma word_and_pred:
  assumes "(w::64 word) AND (w - 1) = 0" and "w \<noteq> 0"
  shows "\<exists>k. \<forall>i. bit w i \<longleftrightarrow> i = k"
proof -
  have "unat (w AND (w - 1)) = unat w AND (unat w - 1)"
    using assms(2) by (simp add: unsigned_and_eq unat_minus_one)
  with assms(1) have "unat w AND (unat w - 1) = 0" by simp
  moreover have "unat w \<noteq> 0" using assms(2) by (simp add: unat_eq_zero)
  ultimately obtain k where k: "unat w = 2 ^ k"
    using nat_and_pred [of "unat w"] by auto
  have "bit w i \<longleftrightarrow> i = k" for i
  proof -
    have "bit w i \<longleftrightarrow> bit (unat w) i" by (auto simp add: bit_simps dest: bit_imp_le_length)
    also have "\<dots> \<longleftrightarrow> i = k" by (simp add: k bit_simps)
    finally show ?thesis .
  qed
  then show ?thesis by blast
qed

lemma two_bits_test:
  assumes "bit (w::64 word) i" and "bit w j" and "i \<noteq> j"
  shows "w AND (w - 1) \<noteq> 0"
proof
  assume z: "w AND (w - 1) = 0"
  have "w \<noteq> 0" using assms(1) by auto
  from word_and_pred [OF z this] obtain k where "\<forall>i. bit w i \<longleftrightarrow> i = k" by blast
  with assms show False by auto
qed


text \<open>
  C8, as the code has it. When the \<open>thread_mask\<close> of the descriptor has exactly one bit
  set, the bit of thread \<open>t\<close>, \<open>fd_alloc_cache_entry\<close> adds the descriptor to
  \<open>fd_cache_local[t]\<close> and \<open>fd_release_cache_entry\<close> removes it from there, and nothing
  else changes. When the mask has two or more bits set, the descriptor is added to, or
  removed from, the global \<open>fd_cache\<close>, and nothing else changes.
\<close>

theorem fd_cache_entry_routing:
  "(t < 64 \<and> thread_mask (fdtab s fd) = push_bit t 1 \<longrightarrow>
      fd_alloc_cache_entry fd s =
        s\<lparr>fd_cache_local := (fd_cache_local s)(int t := fd_add_to_fd_list (fd_cache_local s (int t)) fd)\<rparr>
      \<and> fd_release_cache_entry fd s =
        s\<lparr>fd_cache_local := (fd_cache_local s)(int t := fd_rm_from_fd_list (fd_cache_local s (int t)) fd)\<rparr>)
   \<and> (bit (thread_mask (fdtab s fd)) i \<and> bit (thread_mask (fdtab s fd)) j \<and> i \<noteq> j \<longrightarrow>
      fd_alloc_cache_entry fd s = s\<lparr>fd_cache := fd_add_to_fd_list (fd_cache s) fd\<rparr>
      \<and> fd_release_cache_entry fd s = s\<lparr>fd_cache := fd_rm_from_fd_list (fd_cache s) fd\<rparr>)"
proof (intro conjI impI)
  assume h: "t < 64 \<and> thread_mask (fdtab s fd) = push_bit t 1"
  then have t: "t < 64" and m: "thread_mask (fdtab s fd) = push_bit t 1"
    by simp_all
  have "my_ffsl (thread_mask (fdtab s fd)) = Suc t"
    by (simp only: m my_ffsl_single [OF t])
  then have i: "int (my_ffsl (thread_mask (fdtab s fd))) - 1 = int t"
    by simp
  have z: "thread_mask (fdtab s fd) AND (thread_mask (fdtab s fd) - 1) = 0"
    by (simp only: m single_bit_test)
  show "fd_alloc_cache_entry fd s =
        s\<lparr>fd_cache_local := (fd_cache_local s)(int t := fd_add_to_fd_list (fd_cache_local s (int t)) fd)\<rparr>"
    unfolding fd_alloc_cache_entry_def Let_def i z by simp
  show "fd_release_cache_entry fd s =
        s\<lparr>fd_cache_local := (fd_cache_local s)(int t := fd_rm_from_fd_list (fd_cache_local s (int t)) fd)\<rparr>"
    unfolding fd_release_cache_entry_def Let_def i z by simp
next
  assume "bit (thread_mask (fdtab s fd)) i \<and> bit (thread_mask (fdtab s fd)) j \<and> i \<noteq> j"
  then have nz: "thread_mask (fdtab s fd) AND (thread_mask (fdtab s fd) - 1) \<noteq> 0"
    using two_bits_test by blast
  show "fd_alloc_cache_entry fd s = s\<lparr>fd_cache := fd_add_to_fd_list (fd_cache s) fd\<rparr>"
    using nz by (simp add: fd_alloc_cache_entry_def Let_def)
  show "fd_release_cache_entry fd s = s\<lparr>fd_cache := fd_rm_from_fd_list (fd_cache s) fd\<rparr>"
    using nz by (simp add: fd_release_cache_entry_def Let_def)
qed

lemma routing_inputs:
  "thread_mask (fdtab (fd_insert 0 7 0 0 1 (fd_engine_zero :: nat fd_engine)) 7) = push_bit 0 1"
  "bit (thread_mask (fdtab (fd_insert 0 9 0 0 3 (fd_engine_zero :: nat fd_engine)) 9)) (0::nat)"
  "bit (thread_mask (fdtab (fd_insert 0 9 0 0 3 (fd_engine_zero :: nat fd_engine)) 9)) (Suc 0)"
  "fd_cache_local (fd_insert 0 7 0 0 1 (fd_engine_zero :: nat fd_engine)) 0 = []"
  "fd_cache (fd_insert 0 9 0 0 3 (fd_engine_zero :: nat fd_engine)) = []"
  by (simp_all add: fd_insert_def fd_engine_zero_def)

theorem fd_cache_entry_routing_witness:
  "(0::nat) < 64
   \<and> thread_mask (fdtab (fd_insert 0 7 0 0 1 (fd_engine_zero :: nat fd_engine)) 7) = push_bit 0 1
   \<and> fd_cache_local (fd_alloc_cache_entry 7 (fd_insert 0 7 0 0 1 (fd_engine_zero :: nat fd_engine))) 0 = [7]
   \<and> fd_cache_local (fd_release_cache_entry 7 (fd_insert 0 7 0 0 1 (fd_engine_zero :: nat fd_engine))) 0 = []
   \<and> bit (thread_mask (fdtab (fd_insert 0 9 0 0 3 (fd_engine_zero :: nat fd_engine)) 9)) (0::nat)
   \<and> bit (thread_mask (fdtab (fd_insert 0 9 0 0 3 (fd_engine_zero :: nat fd_engine)) 9)) (1::nat)
   \<and> (0::nat) \<noteq> 1
   \<and> fd_cache (fd_alloc_cache_entry 9 (fd_insert 0 9 0 0 3 (fd_engine_zero :: nat fd_engine))) = [9]
   \<and> fd_cache (fd_release_cache_entry 9 (fd_insert 0 9 0 0 3 (fd_engine_zero :: nat fd_engine))) = []"
  using fd_cache_entry_routing [where t = 0 and fd = 7 and s = "fd_insert 0 7 0 0 1 (fd_engine_zero :: nat fd_engine)"
      and i = 0 and j = 0]
    fd_cache_entry_routing [where t = 0 and fd = 9 and s = "fd_insert 0 9 0 0 3 (fd_engine_zero :: nat fd_engine)"
      and i = 0 and j = 1]
  by (simp add: routing_inputs fd_add_to_fd_list_def fd_rm_from_fd_list_def)

text \<open>
  C8 as stated fails for the empty mask, which is not a mask with exactly one bit set: the
  test \<open>!(thread_mask & (thread_mask - 1))\<close> holds for it, so the local branch is taken
  and the global \<open>fd_cache\<close> neither receives the descriptor nor loses it.
\<close>

theorem fd_cache_entry_no_thread_counterexample:
  "thread_mask (fdtab (fd_engine_zero :: nat fd_engine) 7) = 0
   \<and> 7 \<notin> set (fd_cache (fd_alloc_cache_entry 7 (fd_engine_zero :: nat fd_engine)))
   \<and> 7 \<in> set (fd_cache (fd_release_cache_entry 7 ((fd_engine_zero :: nat fd_engine)\<lparr>fd_cache := [7]\<rparr>)))"
  by (simp add: fd_alloc_cache_entry_def fd_release_cache_entry_def fd_engine_zero_def Let_def)

section \<open>Membership of the ready caches\<close>

lemma active_ready_masks:
  "fd_active_ready v =
     (v AND (FD_EV_READY_R OR FD_EV_ACTIVE_R) = (FD_EV_READY_R OR FD_EV_ACTIVE_R)
      \<or> v AND (FD_EV_READY_W OR FD_EV_ACTIVE_W) = (FD_EV_READY_W OR FD_EV_ACTIVE_W))"
proof -
  have one: "((v::8 word) AND 2 ^ n = 2 ^ n) = (n < 8 \<longrightarrow> bit v n)" for n
    using and_two_bits [of v n n] by simp
  show ?thesis
    unfolding fd_active_ready_def FD_EV_bits and_two_bits one by auto
qed

lemma fd_update_cache_alt:
  "fd_update_cache fd s =
     (if fd_active_ready (state (fdtab s fd)) then fd_alloc_cache_entry fd s
      else fd_release_cache_entry fd s)"
  by (simp only: fd_update_cache_def active_ready_masks)

lemma set_fd_add [simp]: "set (fd_add_to_fd_list l fd) = insert fd (set l)"
  by (auto simp add: fd_add_to_fd_list_def)

lemma set_fd_rm [simp]: "set (fd_rm_from_fd_list l fd) = set l - {fd}"
  by (auto simp add: fd_rm_from_fd_list_def)

lemma mem_alloc_global:
  "fd' \<in> set (fd_cache (fd_alloc_cache_entry fd s)) \<longleftrightarrow>
     fd' \<in> set (fd_cache s)
     \<or> (fd' = fd \<and> thread_mask (fdtab s fd) AND (thread_mask (fdtab s fd) - 1) \<noteq> 0)"
  by (auto simp add: fd_alloc_cache_entry_def Let_def)

lemma mem_alloc_local:
  "fd' \<in> set (fd_cache_local (fd_alloc_cache_entry fd s) i) \<longleftrightarrow>
     fd' \<in> set (fd_cache_local s i)
     \<or> (fd' = fd \<and> thread_mask (fdtab s fd) AND (thread_mask (fdtab s fd) - 1) = 0
         \<and> i = int (my_ffsl (thread_mask (fdtab s fd))) - 1)"
  by (auto simp add: fd_alloc_cache_entry_def Let_def)

lemma mem_release_global:
  "fd' \<in> set (fd_cache (fd_release_cache_entry fd s)) \<longleftrightarrow>
     fd' \<in> set (fd_cache s)
     \<and> \<not> (fd' = fd \<and> thread_mask (fdtab s fd) AND (thread_mask (fdtab s fd) - 1) \<noteq> 0)"
  by (auto simp add: fd_release_cache_entry_def Let_def)

lemma mem_release_local:
  "fd' \<in> set (fd_cache_local (fd_release_cache_entry fd s) i) \<longleftrightarrow>
     fd' \<in> set (fd_cache_local s i)
     \<and> \<not> (fd' = fd \<and> thread_mask (fdtab s fd) AND (thread_mask (fdtab s fd) - 1) = 0
            \<and> i = int (my_ffsl (thread_mask (fdtab s fd))) - 1)"
  by (auto simp add: fd_release_cache_entry_def Let_def)

lemma fdtab_alloc [simp]: "fdtab (fd_alloc_cache_entry fd s) = fdtab s"
  by (simp add: fd_alloc_cache_entry_def Let_def)

lemma fdtab_release [simp]: "fdtab (fd_release_cache_entry fd s) = fdtab s"
  by (simp add: fd_release_cache_entry_def Let_def)

lemma fd_update_cache_inv:
  assumes h: "\<And>fd'. home_ok s fd'"
    and m: "\<And>fd'. fd' \<noteq> fd \<Longrightarrow> fd_cached s fd' \<longleftrightarrow> fd_active_ready (state (fdtab s fd'))"
  shows "cache_inv (fd_update_cache fd s)"
proof (cases "fd_active_ready (state (fdtab s fd))")
  case True
  then have u: "fd_update_cache fd s = fd_alloc_cache_entry fd s"
    by (simp add: fd_update_cache_alt)
  show ?thesis
    unfolding cache_inv_def u
  proof (intro allI conjI)
    fix fd'
    show "home_ok (fd_alloc_cache_entry fd s) fd'"
      using h [of fd'] unfolding home_ok_def mem_alloc_global mem_alloc_local fdtab_alloc
      by blast
    show "fd_cached (fd_alloc_cache_entry fd s) fd' \<longleftrightarrow> fd_active_ready (state (fdtab (fd_alloc_cache_entry fd s) fd'))"
      using m [of fd'] True unfolding fd_cached_def mem_alloc_global mem_alloc_local fdtab_alloc
      by blast
  qed
next
  case False
  then have u: "fd_update_cache fd s = fd_release_cache_entry fd s"
    by (simp add: fd_update_cache_alt)
  show ?thesis
    unfolding cache_inv_def u
  proof (intro allI conjI)
    fix fd'
    show "home_ok (fd_release_cache_entry fd s) fd'"
      using h [of fd'] unfolding home_ok_def mem_release_global mem_release_local fdtab_release
      by blast
    show "fd_cached (fd_release_cache_entry fd s) fd' \<longleftrightarrow> fd_active_ready (state (fdtab (fd_release_cache_entry fd s) fd'))"
      using m [of fd'] h [of fd] False unfolding home_ok_def fd_cached_def mem_release_global mem_release_local fdtab_release
      by blast
  qed
qed


lemma home_ok_frame:
  "fd_cache s' = fd_cache s \<Longrightarrow> fd_cache_local s' = fd_cache_local s \<Longrightarrow>
   thread_mask (fdtab s' fd) = thread_mask (fdtab s fd) \<Longrightarrow> home_ok s' fd = home_ok s fd"
  by (simp add: home_ok_def)

lemma fd_cached_frame:
  "fd_cache s' = fd_cache s \<Longrightarrow> fd_cache_local s' = fd_cache_local s \<Longrightarrow> fd_cached s' fd = fd_cached s fd"
  by (simp add: fd_cached_def)

lemma set_state_frame [simp]:
  "fd_cache (fd_set_state fd v s) = fd_cache s"
  "fd_cache_local (fd_set_state fd v s) = fd_cache_local s"
  "thread_mask (fdtab (fd_set_state fd v s) fd') = thread_mask (fdtab s fd')"
  by (simp_all add: fd_set_state_def)

lemma updt_polling_frame [simp]:
  "fd_cache (updt_fd_polling tid fd s) = fd_cache s"
  "fd_cache_local (updt_fd_polling tid fd s) = fd_cache_local s"
  "thread_mask (fdtab (updt_fd_polling tid fd s) fd') = thread_mask (fdtab s fd')"
  by (simp_all add: updt_fd_polling_def Let_def)

lemma store_cache_inv:
  assumes "cache_inv s"
  shows "cache_inv (fd_update_cache fd (fd_set_state fd v s))"
proof (rule fd_update_cache_inv)
  fix fd'
  have "home_ok (fd_set_state fd v s) fd' = home_ok s fd'"
    by (rule home_ok_frame) simp_all
  then show "home_ok (fd_set_state fd v s) fd'"
    using assms by (simp add: cache_inv_def)
  have "fd_cached (fd_set_state fd v s) fd' = fd_cached s fd'"
    by (rule fd_cached_frame) simp_all
  then show "fd_cached (fd_set_state fd v s) fd' \<longleftrightarrow> fd_active_ready (state (fdtab (fd_set_state fd v s) fd'))"
    if "fd' \<noteq> fd"
    using assms that by (simp add: cache_inv_def)
qed

lemma commit_cache_inv:
  assumes "cache_inv s"
  shows "cache_inv (fd_update_cache fd
           (if c then fd_set_state fd v s else updt_fd_polling tid fd (fd_set_state fd v s)))"
    (is "cache_inv (fd_update_cache fd ?s1)")
proof (rule fd_update_cache_inv)
  fix fd'
  have "home_ok ?s1 fd' = home_ok s fd'"
    by (rule home_ok_frame) simp_all
  then show "home_ok ?s1 fd'"
    using assms by (simp only: cache_inv_def)
  show "fd_cached ?s1 fd' \<longleftrightarrow> fd_active_ready (state (fdtab ?s1 fd'))" if ne: "fd' \<noteq> fd"
  proof -
    have a: "fd_cached ?s1 fd' = fd_cached s fd'"
      by (rule fd_cached_frame) simp_all
    have b: "state (fdtab ?s1 fd') = state (fdtab s fd')"
      using ne by simp
    from assms have "fd_cached s fd' = fd_active_ready (state (fdtab s fd'))"
      by (simp add: cache_inv_def)
    then show ?thesis by (simp only: a b)
  qed
qed

lemma prim_cache_inv: "cache_inv s \<Longrightarrow> cache_inv (fd_prim_call p tid fd s)"
  by (cases p) (simp_all add: prim_defs Let_def commit_cache_inv store_cache_inv)

lemma run_cache_inv: "cache_inv s \<Longrightarrow> cache_inv (fd_run cs s)"
proof (induction cs arbitrary: s)
  case Nil
  then show ?case by simp
next
  case (Cons c cs)
  obtain p tid fd where c: "c = (p, tid, fd)" by (cases c)
  show ?case unfolding c fd_run.simps
    by (rule Cons.IH) (rule prim_cache_inv, rule Cons.prems)
qed

lemma cache_inv_start:
  assumes "\<And>fd. state (fdtab s fd) = 0" and "fd_cache s = []" and "\<And>i. fd_cache_local s i = []"
  shows "cache_inv s"
  using assms by (simp add: cache_inv_def home_ok_def fd_cached_def fd_active_ready_def FD_EV_defs)

text \<open>
  C2. \<open>fd_update_cache\<close> allocates a cache entry for the descriptor exactly when a
  direction of its state word has both ACTIVE and READY set, and releases it otherwise.
  Hence, from any engine in which every state word is zero and every ready cache is empty
  (whatever the thread masks are), after any sequence of transition primitives a descriptor
  is linked in a ready cache if and only if \<open>(ACTIVE_R \<and> READY_R) \<or> (ACTIVE_W \<and> READY_W)\<close>
  holds in its state word.
\<close>

theorem fd_cached_iff_active_ready:
  "fd_update_cache fd s =
     (if fd_active_ready (state (fdtab s fd)) then fd_alloc_cache_entry fd s
      else fd_release_cache_entry fd s)
   \<and> ((\<forall>fd. state (fdtab s fd) = 0) \<and> fd_cache s = [] \<and> (\<forall>i. fd_cache_local s i = []) \<longrightarrow>
        (fd_cached (fd_run cs s) fd \<longleftrightarrow> fd_active_ready (state (fdtab (fd_run cs s) fd))))"
proof (intro conjI impI)
  show "fd_update_cache fd s =
     (if fd_active_ready (state (fdtab s fd)) then fd_alloc_cache_entry fd s
      else fd_release_cache_entry fd s)"
    by (rule fd_update_cache_alt)
next
  assume "(\<forall>fd. state (fdtab s fd) = 0) \<and> fd_cache s = [] \<and> (\<forall>i. fd_cache_local s i = [])"
  then have "cache_inv s" by (intro cache_inv_start) simp_all
  then have "cache_inv (fd_run cs s)" by (rule run_cache_inv)
  then show "fd_cached (fd_run cs s) fd \<longleftrightarrow> fd_active_ready (state (fdtab (fd_run cs s) fd))"
    by (simp add: cache_inv_def)
qed


lemma cached_run_inputs:
  "state (fdtab (fd_insert 0 7 0 0 1 (fd_engine_zero :: nat fd_engine)) fd) = 0"
  "fd_cache (fd_insert 0 7 0 0 1 (fd_engine_zero :: nat fd_engine)) = []"
  "fd_cache_local (fd_insert 0 7 0 0 1 (fd_engine_zero :: nat fd_engine)) i = []"
  "state (fdtab (fd_run [(Want_recv, 0, 7), (May_recv, 0, 7)] (fd_insert 0 7 0 0 1 (fd_engine_zero :: nat fd_engine))) 7) = 7"
  by (simp_all add: fd_insert_def fd_engine_zero_def prim_defs Let_def FD_EV_defs fd_set_state_def)

theorem fd_cached_iff_active_ready_witness:
  "(\<forall>fd. state (fdtab (fd_insert 0 7 0 0 1 (fd_engine_zero :: nat fd_engine)) fd) = 0)
   \<and> fd_cache (fd_insert 0 7 0 0 1 (fd_engine_zero :: nat fd_engine)) = []
   \<and> (\<forall>i. fd_cache_local (fd_insert 0 7 0 0 1 (fd_engine_zero :: nat fd_engine)) i = [])
   \<and> fd_active_ready (state (fdtab (fd_run [(Want_recv, 0, 7), (May_recv, 0, 7)]
        (fd_insert 0 7 0 0 1 (fd_engine_zero :: nat fd_engine))) 7))
   \<and> fd_cached (fd_run [(Want_recv, 0, 7), (May_recv, 0, 7)]
        (fd_insert 0 7 0 0 1 (fd_engine_zero :: nat fd_engine))) 7"
proof -
  have a: "fd_active_ready (state (fdtab (fd_run [(Want_recv, 0, 7), (May_recv, 0, 7)]
        (fd_insert 0 7 0 0 1 (fd_engine_zero :: nat fd_engine))) 7))"
    unfolding cached_run_inputs by (simp add: fd_active_ready_def FD_EV_defs)
  show ?thesis
    using a fd_cached_iff_active_ready [where s = "fd_insert 0 7 0 0 1 (fd_engine_zero :: nat fd_engine)"
        and cs = "[(Want_recv, 0, 7), (May_recv, 0, 7)]" and fd = 7]
    by (simp only: cached_run_inputs) simp
qed

section \<open>The listener stops at the limit and restarts below it\<close>

lemma fd_stop_recv_inactive:
  "state (fdtab (fd_stop_recv tid fd s) fd) AND FD_EV_ACTIVE_R = 0"
proof (cases "state (fdtab s fd) AND FD_EV_ACTIVE_R = 0")
  case True
  then show ?thesis by (simp add: fd_stop_recv_def)
next
  case False
  have "((v AND NOT FD_EV_ACTIVE_R) AND NOT FD_EV_POLLED_R) AND FD_EV_ACTIVE_R = 0" for v
    unfolding FD_EV_bits by (intro bit_word_eqI) (auto simp add: bit_simps)
  with False show ?thesis by (simp add: fd_stop_recv_def Let_def)
qed

lemma fd_want_recv_makes_active:
  "state (fdtab (fd_want_recv tid fd s) fd) AND FD_EV_ACTIVE_R = FD_EV_ACTIVE_R"
proof (cases "state (fdtab s fd) AND FD_EV_ACTIVE_R = 0")
  case False
  then have "bit (state (fdtab s fd)) 2"
    unfolding FD_EV_bits and_exp_eq_0_iff_not_bit by simp
  moreover have "(v AND 2 ^ n = 2 ^ n) = (n < 8 \<longrightarrow> bit v n)" for v :: "8 word" and n
    using and_two_bits [of v n n] by simp
  ultimately have "state (fdtab s fd) AND 2 ^ 2 = 2 ^ 2"
    by blast
  then have "state (fdtab s fd) AND FD_EV_ACTIVE_R = FD_EV_ACTIVE_R"
    by (simp only: FD_EV_bits)
  with False show ?thesis by (simp add: fd_want_recv_def)
next
  case True
  have "(v OR FD_EV_ACTIVE_R OR x) AND FD_EV_ACTIVE_R = FD_EV_ACTIVE_R" for v x
    unfolding FD_EV_bits by (intro bit_word_eqI) (auto simp add: bit_simps)
  with True show ?thesis by (simp add: fd_want_recv_word)
qed

lemma uxst_accept_one_cases:
  "uxst_accept_one tid maxsock a w = Return w
   \<or> (\<exists>w'. uxst_accept_one tid maxsock a w = Continue w'
          \<and> full_ok w'
          \<and> li_nbconn (lst w') = li_nbconn (lst w) + 1
          \<and> li_maxconn (lst w') = li_maxconn (lst w)
          \<and> li_fd (lst w') = li_fd (lst w))"
  by (simp add: uxst_accept_one_def Let_def full_ok_def EV_FD_CLR_def fd_stop_recv_inactive)

lemma uxst_accept_loop_cases:
  "uxst_accept_loop tid maxsock max_accept pending w = w
   \<or> (full_ok (uxst_accept_loop tid maxsock max_accept pending w)
       \<and> li_nbconn (lst w) < li_nbconn (lst (uxst_accept_loop tid maxsock max_accept pending w)))"
proof (induction pending arbitrary: w max_accept)
  case Nil
  then show ?case by simp
next
  case (Cons a pending)
  show ?case
  proof (cases "max_accept = 0")
    case True
    then show ?thesis by simp
  next
    case False
    from uxst_accept_one_cases [of tid maxsock a w] show ?thesis
    proof
      assume "uxst_accept_one tid maxsock a w = Return w"
      with False show ?thesis by simp
    next
      assume "\<exists>w'. uxst_accept_one tid maxsock a w = Continue w'
          \<and> full_ok w'
          \<and> li_nbconn (lst w') = li_nbconn (lst w) + 1
          \<and> li_maxconn (lst w') = li_maxconn (lst w)
          \<and> li_fd (lst w') = li_fd (lst w)"
      then obtain w' where c: "uxst_accept_one tid maxsock a w = Continue w'"
        and f: "full_ok w'" and n: "li_nbconn (lst w') = li_nbconn (lst w) + 1"
        by blast
      have r: "uxst_accept_loop tid maxsock max_accept (a # pending) w
                = uxst_accept_loop tid maxsock (max_accept - 1) pending w'"
        using False c by simp
      from Cons.IH [of "max_accept - 1" w'] show ?thesis
        unfolding r using f n by auto
    qed
  qed
qed

text \<open>
  C9. Whenever an iteration of \<open>uxst_event_accept\<close> accepts a connection, \<open>nbconn\<close>
  grows by one, and if it then reaches or exceeds \<open>maxconn\<close> the listener is put in state
  \<open>LI_FULL\<close> and its descriptor is no longer active for reading. The same holds when the
  whole call returns: if it accepted a connection and left \<open>nbconn\<close> at or above
  \<open>maxconn\<close>, the listener is \<open>LI_FULL\<close> with reading disabled. And when
  \<open>process_uxst_stats\<close> releases a closed session of a listener in state \<open>LI_FULL\<close>,
  leaving \<open>nbconn\<close> strictly below \<open>maxconn\<close>, the listener is back in state
  \<open>LI_READY\<close> and its descriptor is active for reading again.
\<close>

theorem uxst_listener_full_and_ready:
  "(uxst_accept_one tid maxsock a w = Continue w1 \<longrightarrow>
      li_nbconn (lst w1) = li_nbconn (lst w) + 1
      \<and> (li_maxconn (lst w1) \<le> li_nbconn (lst w1) \<longrightarrow>
           li_state (lst w1) = LI_FULL
           \<and> state (fdtab (engine w1) (li_fd (lst w1))) AND FD_EV_ACTIVE_R = 0))
   \<and> (li_nbconn (lst w) < li_nbconn (lst (uxst_event_accept tid nbproc maxsock pending w))
       \<and> li_maxconn (lst (uxst_event_accept tid nbproc maxsock pending w))
            \<le> li_nbconn (lst (uxst_event_accept tid nbproc maxsock pending w)) \<longrightarrow>
      li_state (lst (uxst_event_accept tid nbproc maxsock pending w)) = LI_FULL
      \<and> state (fdtab (engine (uxst_event_accept tid nbproc maxsock pending w))
                 (li_fd (lst (uxst_event_accept tid nbproc maxsock pending w)))) AND FD_EV_ACTIVE_R = 0)
   \<and> (li_state (lst w) = LI_FULL \<and> li_nbconn (lst w) - 1 < li_maxconn (lst w) \<longrightarrow>
      li_state (lst (process_uxst_stats tid CL_STCLOSE SV_STCLOSE True w)) = LI_READY
      \<and> li_nbconn (lst (process_uxst_stats tid CL_STCLOSE SV_STCLOSE True w)) = li_nbconn (lst w) - 1
      \<and> state (fdtab (engine (process_uxst_stats tid CL_STCLOSE SV_STCLOSE True w)) (li_fd (lst w)))
           AND FD_EV_ACTIVE_R = FD_EV_ACTIVE_R)"
proof (intro conjI impI)
  assume c: "uxst_accept_one tid maxsock a w = Continue w1"
  with uxst_accept_one_cases [of tid maxsock a w]
  have f: "full_ok w1" and n: "li_nbconn (lst w1) = li_nbconn (lst w) + 1"
    by auto
  from n show "li_nbconn (lst w1) = li_nbconn (lst w) + 1" .
  assume "li_maxconn (lst w1) \<le> li_nbconn (lst w1)"
  with f show "li_state (lst w1) = LI_FULL"
    and "state (fdtab (engine w1) (li_fd (lst w1))) AND FD_EV_ACTIVE_R = 0"
    by (auto simp add: full_ok_def)
next
  let ?w = "uxst_event_accept tid nbproc maxsock pending w"
  assume h: "li_nbconn (lst w) < li_nbconn (lst ?w) \<and> li_maxconn (lst ?w) \<le> li_nbconn (lst ?w)"
  then have "?w \<noteq> w" by auto
  then have "full_ok ?w"
    using uxst_accept_loop_cases [of tid maxsock "if 1 < nbproc then 8 else - 1" pending w]
    by (auto simp add: uxst_event_accept_def)
  with h show "li_state (lst ?w) = LI_FULL"
    and "state (fdtab (engine ?w) (li_fd (lst ?w))) AND FD_EV_ACTIVE_R = 0"
    by (auto simp add: full_ok_def)
next
  let ?w = "process_uxst_stats tid CL_STCLOSE SV_STCLOSE True w"
  assume h: "li_state (lst w) = LI_FULL \<and> li_nbconn (lst w) - 1 < li_maxconn (lst w)"
  then show "li_state (lst ?w) = LI_READY"
    and "li_nbconn (lst ?w) = li_nbconn (lst w) - 1"
    and "state (fdtab (engine ?w) (li_fd (lst w))) AND FD_EV_ACTIVE_R = FD_EV_ACTIVE_R"
    by (simp_all add: process_uxst_stats_def Let_def EV_FD_SET_def fd_want_recv_makes_active)
qed


lemma uxst_example_accept:
  "uxst_accept_one 0 100
      \<lparr>acc_cfd = 5, acc_session_ok = True, acc_task_ok = True, acc_nonblock_ok = True,
        acc_req_ok = True, acc_rep_ok = True\<rparr>
      \<lparr>engine = fd_want_recv 0 3 (fd_engine_zero :: nat fd_engine),
        lst = \<lparr>li_fd = 3, li_state = LI_READY, li_nbconn = 0, li_maxconn = 1, li_timeout_set = False\<rparr>,
        actconn = 0, totalconn = 0\<rparr>
    = Continue
      \<lparr>engine = fd_stop_recv 0 3 (fd_want_recv 0 3 (fd_engine_zero :: nat fd_engine)),
        lst = \<lparr>li_fd = 3, li_state = LI_FULL, li_nbconn = 1, li_maxconn = 1, li_timeout_set = False\<rparr>,
        actconn = 1, totalconn = 1\<rparr>"
  "uxst_event_accept 0 1 100
      [\<lparr>acc_cfd = 5, acc_session_ok = True, acc_task_ok = True, acc_nonblock_ok = True,
        acc_req_ok = True, acc_rep_ok = True\<rparr>]
      \<lparr>engine = fd_want_recv 0 3 (fd_engine_zero :: nat fd_engine),
        lst = \<lparr>li_fd = 3, li_state = LI_READY, li_nbconn = 0, li_maxconn = 1, li_timeout_set = False\<rparr>,
        actconn = 0, totalconn = 0\<rparr>
    = \<lparr>engine = fd_stop_recv 0 3 (fd_want_recv 0 3 (fd_engine_zero :: nat fd_engine)),
        lst = \<lparr>li_fd = 3, li_state = LI_FULL, li_nbconn = 1, li_maxconn = 1, li_timeout_set = False\<rparr>,
        actconn = 1, totalconn = 1\<rparr>"
  by (simp_all add: uxst_event_accept_def uxst_accept_one_def Let_def EV_FD_CLR_def)

theorem uxst_listener_full_and_ready_witness:
  "uxst_accept_one 0 100
      \<lparr>acc_cfd = 5, acc_session_ok = True, acc_task_ok = True, acc_nonblock_ok = True,
        acc_req_ok = True, acc_rep_ok = True\<rparr>
      \<lparr>engine = fd_want_recv 0 3 (fd_engine_zero :: nat fd_engine),
        lst = \<lparr>li_fd = 3, li_state = LI_READY, li_nbconn = 0, li_maxconn = 1, li_timeout_set = False\<rparr>,
        actconn = 0, totalconn = 0\<rparr>
    = Continue
      \<lparr>engine = fd_stop_recv 0 3 (fd_want_recv 0 3 (fd_engine_zero :: nat fd_engine)),
        lst = \<lparr>li_fd = 3, li_state = LI_FULL, li_nbconn = 1, li_maxconn = 1, li_timeout_set = False\<rparr>,
        actconn = 1, totalconn = 1\<rparr>
   \<and> li_nbconn (lst \<lparr>engine = fd_stop_recv 0 3 (fd_want_recv 0 3 (fd_engine_zero :: nat fd_engine)),
        lst = \<lparr>li_fd = 3, li_state = LI_FULL, li_nbconn = 1, li_maxconn = 1, li_timeout_set = False\<rparr>,
        actconn = 1, totalconn = 1\<rparr>) = 1
   \<and> li_maxconn (lst \<lparr>engine = fd_stop_recv 0 3 (fd_want_recv 0 3 (fd_engine_zero :: nat fd_engine)),
        lst = \<lparr>li_fd = 3, li_state = LI_FULL, li_nbconn = 1, li_maxconn = 1, li_timeout_set = False\<rparr>,
        actconn = 1, totalconn = 1\<rparr>) \<le> li_nbconn (lst \<lparr>engine = fd_stop_recv 0 3 (fd_want_recv 0 3 (fd_engine_zero :: nat fd_engine)),
        lst = \<lparr>li_fd = 3, li_state = LI_FULL, li_nbconn = 1, li_maxconn = 1, li_timeout_set = False\<rparr>,
        actconn = 1, totalconn = 1\<rparr>)
   \<and> li_state (lst (uxst_event_accept 0 1 100
      [\<lparr>acc_cfd = 5, acc_session_ok = True, acc_task_ok = True, acc_nonblock_ok = True,
        acc_req_ok = True, acc_rep_ok = True\<rparr>]
      \<lparr>engine = fd_want_recv 0 3 (fd_engine_zero :: nat fd_engine),
        lst = \<lparr>li_fd = 3, li_state = LI_READY, li_nbconn = 0, li_maxconn = 1, li_timeout_set = False\<rparr>,
        actconn = 0, totalconn = 0\<rparr>)) = LI_FULL
   \<and> state (fdtab (engine (uxst_event_accept 0 1 100
      [\<lparr>acc_cfd = 5, acc_session_ok = True, acc_task_ok = True, acc_nonblock_ok = True,
        acc_req_ok = True, acc_rep_ok = True\<rparr>]
      \<lparr>engine = fd_want_recv 0 3 (fd_engine_zero :: nat fd_engine),
        lst = \<lparr>li_fd = 3, li_state = LI_READY, li_nbconn = 0, li_maxconn = 1, li_timeout_set = False\<rparr>,
        actconn = 0, totalconn = 0\<rparr>)) 3) AND FD_EV_ACTIVE_R = 0
   \<and> li_nbconn (lst \<lparr>engine = fd_stop_recv 0 3 (fd_want_recv 0 3 (fd_engine_zero :: nat fd_engine)),
        lst = \<lparr>li_fd = 3, li_state = LI_FULL, li_nbconn = 1, li_maxconn = 1, li_timeout_set = False\<rparr>,
        actconn = 1, totalconn = 1\<rparr>) - 1 < li_maxconn (lst \<lparr>engine = fd_stop_recv 0 3 (fd_want_recv 0 3 (fd_engine_zero :: nat fd_engine)),
        lst = \<lparr>li_fd = 3, li_state = LI_FULL, li_nbconn = 1, li_maxconn = 1, li_timeout_set = False\<rparr>,
        actconn = 1, totalconn = 1\<rparr>)
   \<and> li_state (lst (process_uxst_stats 0 CL_STCLOSE SV_STCLOSE True
      \<lparr>engine = fd_stop_recv 0 3 (fd_want_recv 0 3 (fd_engine_zero :: nat fd_engine)),
        lst = \<lparr>li_fd = 3, li_state = LI_FULL, li_nbconn = 1, li_maxconn = 1, li_timeout_set = False\<rparr>,
        actconn = 1, totalconn = 1\<rparr>)) = LI_READY
   \<and> state (fdtab (engine (process_uxst_stats 0 CL_STCLOSE SV_STCLOSE True
      \<lparr>engine = fd_stop_recv 0 3 (fd_want_recv 0 3 (fd_engine_zero :: nat fd_engine)),
        lst = \<lparr>li_fd = 3, li_state = LI_FULL, li_nbconn = 1, li_maxconn = 1, li_timeout_set = False\<rparr>,
        actconn = 1, totalconn = 1\<rparr>)) 3) AND FD_EV_ACTIVE_R = FD_EV_ACTIVE_R"
  using uxst_listener_full_and_ready [where tid = 0 and maxsock = 100 and nbproc = 1
      and a = "\<lparr>acc_cfd = 5, acc_session_ok = True, acc_task_ok = True, acc_nonblock_ok = True,
        acc_req_ok = True, acc_rep_ok = True\<rparr>"
      and pending = "[\<lparr>acc_cfd = 5, acc_session_ok = True, acc_task_ok = True, acc_nonblock_ok = True,
        acc_req_ok = True, acc_rep_ok = True\<rparr>]"
      and w = "\<lparr>engine = fd_want_recv 0 3 (fd_engine_zero :: nat fd_engine),
        lst = \<lparr>li_fd = 3, li_state = LI_READY, li_nbconn = 0, li_maxconn = 1, li_timeout_set = False\<rparr>,
        actconn = 0, totalconn = 0\<rparr>"
      and ?w1.0 = "\<lparr>engine = fd_stop_recv 0 3 (fd_want_recv 0 3 (fd_engine_zero :: nat fd_engine)),
        lst = \<lparr>li_fd = 3, li_state = LI_FULL, li_nbconn = 1, li_maxconn = 1, li_timeout_set = False\<rparr>,
        actconn = 1, totalconn = 1\<rparr>"]
    uxst_listener_full_and_ready [where tid = 0 and maxsock = 100 and nbproc = 1
      and a = "\<lparr>acc_cfd = 5, acc_session_ok = True, acc_task_ok = True, acc_nonblock_ok = True,
        acc_req_ok = True, acc_rep_ok = True\<rparr>"
      and pending = "[]"
      and w = "\<lparr>engine = fd_stop_recv 0 3 (fd_want_recv 0 3 (fd_engine_zero :: nat fd_engine)),
        lst = \<lparr>li_fd = 3, li_state = LI_FULL, li_nbconn = 1, li_maxconn = 1, li_timeout_set = False\<rparr>,
        actconn = 1, totalconn = 1\<rparr>"
      and ?w1.0 = "\<lparr>engine = fd_stop_recv 0 3 (fd_want_recv 0 3 (fd_engine_zero :: nat fd_engine)),
        lst = \<lparr>li_fd = 3, li_state = LI_FULL, li_nbconn = 1, li_maxconn = 1, li_timeout_set = False\<rparr>,
        actconn = 1, totalconn = 1\<rparr>"]
  unfolding uxst_example_accept
  by simp

end
